theory Spec2Isabelle
  imports Complex_Main "HOL-Library.AList"
begin

section \<open>JavaScript values\<close>

text \<open>
  The registries of the program are module-level \<^verbatim>\<open>Map\<close>s of plain objects. The objects are
  typed by TypeScript interfaces (\<^verbatim>\<open>Task\<close>, \<^verbatim>\<open>LearningEntry\<close>, \<^verbatim>\<open>AgentMetrics\<close>), but
  \<^verbatim>\<open>importTasks\<close> and \<^verbatim>\<open>importLearnings\<close> store whatever \<^verbatim>\<open>JSON.parse\<close> returns, so the
  stored values are modelled as untyped JavaScript values.

  A number is an IEEE double. Its special values are kept (division by zero gives an
  infinity or NaN, never an exception); finite values are exact reals, so rounding, overflow
  to infinity and the sign of zero are not modelled.
\<close>

datatype jsnum = Fin real | PosInf | NegInf | NaN

fun is_finite :: "jsnum \<Rightarrow> bool" where
  "is_finite (Fin x) = True"
| "is_finite _ = False"

fun js_neg :: "jsnum \<Rightarrow> jsnum" where
  "js_neg (Fin x) = Fin (- x)"
| "js_neg PosInf = NegInf"
| "js_neg NegInf = PosInf"
| "js_neg NaN = NaN"

fun js_add :: "jsnum \<Rightarrow> jsnum \<Rightarrow> jsnum" where
  "js_add NaN _ = NaN"
| "js_add _ NaN = NaN"
| "js_add (Fin x) (Fin y) = Fin (x + y)"
| "js_add PosInf NegInf = NaN"
| "js_add NegInf PosInf = NaN"
| "js_add PosInf _ = PosInf"
| "js_add NegInf _ = NegInf"
| "js_add (Fin x) PosInf = PosInf"
| "js_add (Fin x) NegInf = NegInf"

definition js_sub :: "jsnum \<Rightarrow> jsnum \<Rightarrow> jsnum" where
  "js_sub a b = js_add a (js_neg b)"

text \<open>The sign of a number: \<open>1\<close>, \<open>0\<close> or \<open>-1\<close>; NaN has none.\<close>

fun js_sign :: "jsnum \<Rightarrow> int option" where
  "js_sign (Fin x) = Some (if x > 0 then 1 else if x < 0 then - 1 else 0)"
| "js_sign PosInf = Some 1"
| "js_sign NegInf = Some (- 1)"
| "js_sign NaN = None"

definition signed_inf :: "int \<Rightarrow> jsnum" where
  "signed_inf s = (if s > 0 then PosInf else NegInf)"

fun js_mul :: "jsnum \<Rightarrow> jsnum \<Rightarrow> jsnum" where
  "js_mul (Fin x) (Fin y) = Fin (x * y)"
| "js_mul a b =
     (case (js_sign a, js_sign b) of
        (Some s, Some t) \<Rightarrow> if s * t = 0 then NaN else signed_inf (s * t)
      | _ \<Rightarrow> NaN)"

text \<open>
  Division: a finite non-zero number over zero is an infinity, zero over zero and infinity
  over infinity are NaN, a finite number over an infinity is zero.
\<close>

fun js_div :: "jsnum \<Rightarrow> jsnum \<Rightarrow> jsnum" where
  "js_div NaN _ = NaN"
| "js_div _ NaN = NaN"
| "js_div (Fin x) (Fin y) =
     (if y \<noteq> 0 then Fin (x / y)
      else if x = 0 then NaN
      else if x > 0 then PosInf else NegInf)"
| "js_div (Fin x) _ = Fin 0"
| "js_div PosInf (Fin y) = (if y < 0 then NegInf else PosInf)"
| "js_div NegInf (Fin y) = (if y < 0 then PosInf else NegInf)"
| "js_div _ _ = NaN"

fun js_gt :: "jsnum \<Rightarrow> jsnum \<Rightarrow> bool" where
  "js_gt NaN _ = False"
| "js_gt _ NaN = False"
| "js_gt (Fin x) (Fin y) = (x > y)"
| "js_gt PosInf PosInf = False"
| "js_gt PosInf _ = True"
| "js_gt NegInf _ = False"
| "js_gt (Fin x) NegInf = True"
| "js_gt (Fin x) PosInf = False"

text \<open>
  A counter: a number that holds a natural number below \<open>2 ^ 53\<close>, the range in which
  \<^verbatim>\<open>++\<close> on a double is exact.
\<close>

fun is_count :: "jsnum \<Rightarrow> bool" where
  "is_count (Fin x) = (0 \<le> x \<and> x < 2 ^ 53 \<and> x = of_int \<lfloor>x\<rfloor>)"
| "is_count _ = False"

text \<open>
  A value. \<open>DateV\<close> is a \<^verbatim>\<open>Date\<close> object: its time value in milliseconds, or \<open>None\<close> for
  an invalid date. \<open>Obj\<close> is a plain object: its own properties in insertion order. \<open>Arr\<close> is
  an array: its elements, and the named properties that were assigned to it. \<open>Ref\<close> is a
  reference to an object that lives in a store (used for the task objects, which are
  shared between the registry and their parents' \<open>subtasks\<close> arrays); an \<open>Obj\<close> or \<open>Arr\<close>
  written in place is an object with a single reference.
\<close>

datatype jsval =
    Undefined
  | Null
  | Bool bool
  | Num jsnum
  | Str string
  | DateV "int option"
  | Arr "jsval list" "(string \<times> jsval) list"
  | Obj "(string \<times> jsval) list"
  | Ref nat

text \<open>
  What the program can throw: an \<^verbatim>\<open>Error\<close> with its message, one of the engine's own
  errors (their message texts are the engine's, not the program's), or a value that is not an
  \<^verbatim>\<open>Error\<close> at all.
\<close>

datatype error = Error string | TypeError | SyntaxError | Thrown

text \<open>Truthiness, as \<^verbatim>\<open>if (x)\<close>, \<^verbatim>\<open>!x\<close> and \<^verbatim>\<open>x || y\<close> test it.\<close>

fun truthy :: "jsval \<Rightarrow> bool" where
  "truthy Undefined = False"
| "truthy Null = False"
| "truthy (Bool b) = b"
| "truthy (Num (Fin x)) = (x \<noteq> 0)"
| "truthy (Num NaN) = False"
| "truthy (Num _) = True"
| "truthy (Str s) = (s \<noteq> [])"
| "truthy _ = True"

text \<open>
  Reading and writing a named property. Reading a property that an object does not have
  gives \<^verbatim>\<open>undefined\<close>, and so does reading one of the program's property names from a
  string, a number or a boolean; reading from \<^verbatim>\<open>null\<close> or \<^verbatim>\<open>undefined\<close> raises a TypeError.
  Writing to anything but an object raises a TypeError (the modules are ES modules, so they
  run in strict mode).
\<close>

fun props_of :: "jsval \<Rightarrow> (string \<times> jsval) list" where
  "props_of (Obj ps) = ps"
| "props_of (Arr xs ps) = ps"
| "props_of _ = []"

definition lookup :: "(string \<times> jsval) list \<Rightarrow> string \<Rightarrow> jsval" where
  "lookup ps k = (case map_of ps k of None \<Rightarrow> Undefined | Some v \<Rightarrow> v)"

fun get_prop :: "jsval \<Rightarrow> string \<Rightarrow> error + jsval" where
  "get_prop Undefined k = Inl TypeError"
| "get_prop Null k = Inl TypeError"
| "get_prop v k = Inr (lookup (props_of v) k)"

fun set_prop :: "jsval \<Rightarrow> string \<Rightarrow> jsval \<Rightarrow> error + jsval" where
  "set_prop (Obj ps) k x = Inr (Obj (AList.update k x ps))"
| "set_prop (Arr xs ps) k x = Inr (Arr xs (AList.update k x ps))"
| "set_prop _ k x = Inl TypeError"

definition opt_str :: "string option \<Rightarrow> jsval" where
  "opt_str x = (case x of None \<Rightarrow> Undefined | Some s \<Rightarrow> Str s)"

text \<open>Sequencing of steps that may raise.\<close>

definition and_then :: "'e + 'a \<Rightarrow> ('a \<Rightarrow> 'e + 'b) \<Rightarrow> 'e + 'b" where
  "and_then m f = (case m of Inl err \<Rightarrow> Inl err | Inr x \<Rightarrow> f x)"

text \<open>The values that are objects; the others are primitive values.\<close>

fun is_object :: "jsval \<Rightarrow> bool" where
  "is_object (DateV t) = True"
| "is_object (Arr xs ps) = True"
| "is_object (Obj ps) = True"
| "is_object (Ref a) = True"
| "is_object _ = False"

text \<open>
  \<^verbatim>\<open>m.set(k, v)\<close> on a \<^verbatim>\<open>Map\<close>: a key that the map has keeps its place and gets the value,
  a new key is added at the end. Keys that are objects are compared by identity. The only
  keys of the program that are objects are read from a parsed payload (the \<open>id\<close> of an
  imported element); such an object has just been built by \<^verbatim>\<open>JSON.parse\<close>, so it is no key
  of the map.
\<close>

definition map_set :: "jsval \<Rightarrow> 'a \<Rightarrow> (jsval \<times> 'a) list \<Rightarrow> (jsval \<times> 'a) list" where
  "map_set k v m = (if is_object k then m @ [(k, v)] else AList.update k v m)"

text \<open>
  The own properties of an array that are its elements: the element at index \<open>i\<close> has the
  decimal numeral of \<open>i\<close> as its name.
\<close>

fun dec :: "nat \<Rightarrow> string" where
  "dec n = (if n < 10 then [char_of (48 + n)] else dec (n div 10) @ [char_of (48 + n mod 10)])"

declare dec.simps [simp del]

definition indexed :: "jsval list \<Rightarrow> (string \<times> jsval) list" where
  "indexed xs = zip (map dec [0..<length xs]) xs"

subsection \<open>Strings\<close>

text \<open>
  A string is a text, held as the list of the bytes of its UTF-8 form; the empty text is
  the empty list. What the engine computes from the UTF-16 code units of a text or from
  the Unicode properties of its characters (its lower case, its pieces between white space,
  its length, a slice of it, the items of an iteration over it) is not computed by the
  model: these functions are parameters, the fields of the record \<open>engine\<close> below.

  The three functions that follow are what such an engine does on ASCII text. They are
  used by the engine of the examples only.
\<close>

definition ascii_lower_char :: "char \<Rightarrow> char" where
  "ascii_lower_char c =
     (if (65::nat) \<le> of_char c \<and> of_char c \<le> (90::nat) then char_of (of_char c + (32::nat)) else c)"

definition ascii_lower :: "string \<Rightarrow> string" where
  "ascii_lower s = map ascii_lower_char s"

definition ascii_space :: "char \<Rightarrow> bool" where
  "ascii_space c = (of_char c \<in> {9::nat, 10, 11, 12, 13, 32})"

text \<open>
  The pieces of an ASCII text between its maximal runs of white space. A text that starts
  or ends with white space has an empty first or last piece, and the empty text splits into
  one empty piece, as with \<^verbatim>\<open>s.split(/\s+/)\<close>.
\<close>

function ascii_split :: "string \<Rightarrow> string list" where
  "ascii_split s =
     (let w = takeWhile (\<lambda>c. \<not> ascii_space c) s;
          r = dropWhile (\<lambda>c. \<not> ascii_space c) s
      in if r = [] then [w] else w # ascii_split (dropWhile ascii_space r))"
  by pat_completeness auto
termination
proof (relation "measure length")
  fix s w r
  assume r: "r = dropWhile (\<lambda>c. \<not> ascii_space c) s" and ne: "r \<noteq> []"
  from ne obtain a rest where ar: "r = a # rest"
    by (cases r) auto
  from ne have "\<not> \<not> ascii_space (hd (dropWhile (\<lambda>c. \<not> ascii_space c) s))"
    unfolding r by (rule hd_dropWhile)
  with ar r have "ascii_space a" by simp
  with ar have "dropWhile ascii_space r = dropWhile ascii_space rest" by simp
  moreover have "length (dropWhile ascii_space rest) \<le> length rest"
    by (rule length_dropWhile_le)
  ultimately have "length (dropWhile ascii_space r) < length r"
    using ar by simp
  moreover have "length r \<le> length s"
    unfolding r by (rule length_dropWhile_le)
  ultimately show "(dropWhile ascii_space r, s) \<in> measure length"
    by simp
qed simp

declare ascii_split.simps [simp del]

text \<open>
  \<^verbatim>\<open>s.includes(w)\<close>: \<open>w\<close> occurs in \<open>s\<close> as a contiguous substring. For well-formed texts
  this is the same on the UTF-8 bytes as on the UTF-16 code units.
\<close>

fun is_prefix :: "string \<Rightarrow> string \<Rightarrow> bool" where
  "is_prefix [] s = True"
| "is_prefix (c # w) [] = False"
| "is_prefix (c # w) (d # s) = (c = d \<and> is_prefix w s)"

fun str_includes :: "string \<Rightarrow> string \<Rightarrow> bool" where
  "str_includes [] w = (w = [])"
| "str_includes (c # s) w = (is_prefix w (c # s) \<or> str_includes s w)"

text \<open>
  The code points of a text: in UTF-8 a code point is one byte that is not a continuation
  byte (\<open>10xxxxxx\<close>), followed by its continuation bytes. These are the strings that
  \<^verbatim>\<open>for (const x of s)\<close> iterates over.
\<close>

definition continuation :: "char \<Rightarrow> bool" where
  "continuation c = ((128::nat) \<le> of_char c \<and> of_char c < (192::nat))"

function code_points :: "string \<Rightarrow> string list" where
  "code_points [] = []"
| "code_points (c # s) = (c # takeWhile continuation s) # code_points (dropWhile continuation s)"
  by pat_completeness auto
termination
  by (relation "measure length") (auto simp: length_dropWhile_le less_Suc_eq_le)

subsection \<open>Sorting\<close>

text \<open>
  \<^verbatim>\<open>Array.prototype.sort\<close> with a comparator is stable: of two elements it puts the later
  one first only when the comparator, called on the earlier and the later, is positive
  (NaN counts as zero). It is modelled as the stable insertion sort.
\<close>

fun insert_by :: "('a \<Rightarrow> 'a \<Rightarrow> jsnum) \<Rightarrow> 'a \<Rightarrow> 'a list \<Rightarrow> 'a list" where
  "insert_by cmp x [] = [x]"
| "insert_by cmp x (y # ys) =
     (if js_gt (cmp x y) (Fin 0) then y # insert_by cmp x ys else x # y # ys)"

definition sort_by :: "('a \<Rightarrow> 'a \<Rightarrow> jsnum) \<Rightarrow> 'a list \<Rightarrow> 'a list" where
  "sort_by cmp xs = foldr (insert_by cmp) xs []"

text \<open>
  \<^verbatim>\<open>xs.slice(0, n)\<close> for an integer \<open>n\<close>: the first \<open>n\<close> elements, and for a negative \<open>n\<close>
  all but the last \<open>- n\<close>.
\<close>

definition slice0 :: "int \<Rightarrow> 'a list \<Rightarrow> 'a list" where
  "slice0 n xs = (if n < 0 then take (nat (int (length xs) + n)) xs else take (nat n) xs)"

section \<open>JSON text and the engine's conversions\<close>

text \<open>
  A JSON text is modelled by the document that \<^verbatim>\<open>JSON.parse\<close> reads from it, and
  \<^verbatim>\<open>JSON.stringify\<close> by the document that it writes; an argument of \<^verbatim>\<open>importTasks\<close> or
  \<^verbatim>\<open>importLearnings\<close> is a \<open>json option\<close>, \<open>None\<close> being a text that \<^verbatim>\<open>JSON.parse\<close> rejects
  with a SyntaxError.
\<close>

datatype json =
    JNull
  | JBool bool
  | JNum real
  | JStr string
  | JArr "json list"
  | JObj "(string \<times> json) list"

text \<open>
  The conversions that belong to the JavaScript engine and not to the program are
  parameters of the model:
  \<^item> \<open>toISOString\<close>: the text that \<^verbatim>\<open>toISOString\<close> gives for a time value;
  \<^item> \<open>parseDate\<close>: the time value that \<^verbatim>\<open>new Date(s)\<close> reads from a string (\<open>None\<close> for an
    invalid date);
  \<^item> \<open>toPrimitive\<close>: the primitive value of an object (\<^verbatim>\<open>ToPrimitive\<close> with its hint), which
    raises a TypeError when neither \<^verbatim>\<open>valueOf\<close> nor \<^verbatim>\<open>toString\<close> of the object gives one: an
    object read from a payload can have members of these names;
  \<^item> \<open>numberOfText\<close>: the number that \<^verbatim>\<open>ToNumber\<close> reads from a string;
  \<^item> \<open>textOfNumber\<close>: the text of a number (\<^verbatim>\<open>ToString\<close>);
  \<^item> \<open>toLowerCase\<close>: \<^verbatim>\<open>s.toLowerCase()\<close>;
  \<^item> \<open>splitWhiteSpace\<close>: \<^verbatim>\<open>s.split(/\s+/)\<close>;
  \<^item> \<open>sliceText\<close>: \<^verbatim>\<open>s.slice(0, n)\<close>, the first \<open>n\<close> UTF-16 code units of \<open>s\<close>;
  \<^item> \<open>textLength\<close>: \<^verbatim>\<open>s.length\<close>, the number of UTF-16 code units of \<open>s\<close>;
  \<^item> \<open>textUnits\<close>: the own properties of a string, one string of one UTF-16 code unit for
    each index.
\<close>

datatype hint = HintDefault | HintNumber | HintString

record engine =
  toISOString :: "int \<Rightarrow> string"
  parseDate :: "jsval \<Rightarrow> int option"
  toPrimitive :: "hint \<Rightarrow> jsval \<Rightarrow> error + jsval"
  numberOfText :: "string \<Rightarrow> jsnum"
  textOfNumber :: "jsnum \<Rightarrow> string"
  toLowerCase :: "string \<Rightarrow> string"
  splitWhiteSpace :: "string \<Rightarrow> string list"
  sliceText :: "string \<Rightarrow> nat \<Rightarrow> string"
  textLength :: "string \<Rightarrow> nat"
  textUnits :: "string \<Rightarrow> string list"

text \<open>
  \<^verbatim>\<open>ToPrimitive\<close>: a primitive value is its own; a \<^verbatim>\<open>Date\<close> with the hint \<open>number\<close> gives
  its time value (NaN when it is invalid); every other conversion of an object is the
  engine's.
\<close>

fun to_primitive :: "engine \<Rightarrow> hint \<Rightarrow> jsval \<Rightarrow> error + jsval" where
  "to_primitive eng h (DateV t) =
     (if h = HintNumber
      then Inr (Num (case t of None \<Rightarrow> NaN | Some x \<Rightarrow> Fin (real_of_int x)))
      else toPrimitive eng h (DateV t))"
| "to_primitive eng h (Arr xs ps) = toPrimitive eng h (Arr xs ps)"
| "to_primitive eng h (Obj ps) = toPrimitive eng h (Obj ps)"
| "to_primitive eng h (Ref a) = toPrimitive eng h (Ref a)"
| "to_primitive eng h v = Inr v"

text \<open>\<^verbatim>\<open>ToNumber\<close>, which the arithmetic operators apply to their operands.\<close>

fun prim_number :: "engine \<Rightarrow> jsval \<Rightarrow> jsnum" where
  "prim_number eng Null = Fin 0"
| "prim_number eng (Bool b) = Fin (if b then 1 else 0)"
| "prim_number eng (Num n) = n"
| "prim_number eng (Str s) = numberOfText eng s"
| "prim_number eng _ = NaN"

definition to_number :: "engine \<Rightarrow> jsval \<Rightarrow> error + jsnum" where
  "to_number eng v = and_then (to_primitive eng HintNumber v) (\<lambda>p. Inr (prim_number eng p))"

text \<open>\<^verbatim>\<open>ToString\<close>, which a template literal applies to its substitutions.\<close>

fun prim_text :: "engine \<Rightarrow> jsval \<Rightarrow> string" where
  "prim_text eng Undefined = ''undefined''"
| "prim_text eng Null = ''null''"
| "prim_text eng (Bool b) = (if b then ''true'' else ''false'')"
| "prim_text eng (Num n) = textOfNumber eng n"
| "prim_text eng (Str s) = s"
| "prim_text eng _ = []"

definition to_text :: "engine \<Rightarrow> jsval \<Rightarrow> error + string" where
  "to_text eng v = and_then (to_primitive eng HintString v) (\<lambda>p. Inr (prim_text eng p))"

text \<open>
  \<^verbatim>\<open>v + n\<close> for a number \<open>n\<close>, as \<^verbatim>\<open>v += n\<close> computes it: the concatenation of the texts
  when the primitive value of \<open>v\<close> is a string, the sum of the numbers otherwise.
\<close>

definition js_plus :: "engine \<Rightarrow> jsval \<Rightarrow> jsnum \<Rightarrow> error + jsval" where
  "js_plus eng v n =
     and_then (to_primitive eng HintDefault v) (\<lambda>p.
       Inr (case p of
              Str s \<Rightarrow> Str (s @ textOfNumber eng n)
            | _ \<Rightarrow> Num (js_add (prim_number eng p) n)))"

text \<open>
  \<^verbatim>\<open>new Date(v)\<close>: the time value of a \<^verbatim>\<open>Date\<close>; otherwise the primitive value of \<open>v\<close> is
  parsed when it is a string, and read as a number, clipped to the range of time values and
  truncated, when it is not.
\<close>

definition time_clip :: "jsnum \<Rightarrow> int option" where
  "time_clip n =
     (case n of
        Fin x \<Rightarrow> if \<bar>x\<bar> \<le> 8640000000000000 then Some (if x < 0 then \<lceil>x\<rceil> else \<lfloor>x\<rfloor>) else None
      | _ \<Rightarrow> None)"

fun date_of_primitive :: "engine \<Rightarrow> jsval \<Rightarrow> jsval" where
  "date_of_primitive eng (Str s) = DateV (parseDate eng (Str s))"
| "date_of_primitive eng p = DateV (time_clip (prim_number eng p))"

definition new_Date :: "engine \<Rightarrow> jsval \<Rightarrow> error + jsval" where
  "new_Date eng v =
     (case v of
        DateV t \<Rightarrow> Inr (DateV t)
      | _ \<Rightarrow> and_then (to_primitive eng HintDefault v) (\<lambda>p. Inr (date_of_primitive eng p)))"

text \<open>
  The value that \<^verbatim>\<open>JSON.parse\<close> builds from a document. Of two members of an object with the
  same name the later one gives the value.
\<close>

fun of_json :: "json \<Rightarrow> jsval"
  and of_json_list :: "json list \<Rightarrow> jsval list"
  and of_json_members :: "(string \<times> jsval) list \<Rightarrow> (string \<times> json) list \<Rightarrow> (string \<times> jsval) list" where
  "of_json JNull = Null"
| "of_json (JBool b) = Bool b"
| "of_json (JNum x) = Num (Fin x)"
| "of_json (JStr s) = Str s"
| "of_json (JArr js) = Arr (of_json_list js) []"
| "of_json (JObj ms) = Obj (of_json_members [] ms)"
| "of_json_list [] = []"
| "of_json_list (j # js) = of_json j # of_json_list js"
| "of_json_members acc [] = acc"
| "of_json_members acc ((k, j) # ms) = of_json_members (AList.update k (of_json j) acc) ms"

text \<open>What \<^verbatim>\<open>for (const x of v)\<close> iterates over; anything but an array or a string raises.\<close>

fun iterate :: "jsval \<Rightarrow> error + jsval list" where
  "iterate (Arr xs ps) = Inr xs"
| "iterate (Str s) = Inr (map Str (code_points s))"
| "iterate _ = Inl TypeError"

text \<open>
  The own properties of a value that \<^verbatim>\<open>Object.assign\<close> copies from it: the properties of an
  object, the elements and the properties of an array, the code units of a string.
\<close>

fun own_entries :: "engine \<Rightarrow> jsval \<Rightarrow> (string \<times> jsval) list" where
  "own_entries eng (Obj ps) = ps"
| "own_entries eng (Arr xs ps) = indexed xs @ ps"
| "own_entries eng (Str s) = indexed (map Str (textUnits eng s))"
| "own_entries eng _ = []"

text \<open>
  The engine of the examples: a fragment of an engine, which does what an engine does on
  ASCII texts, on the ISO texts of the time values 0, 10 and 20 and on their reading by
  \<^verbatim>\<open>new Date\<close>. No example reaches its other conversions: it reads every other string as an
  invalid date and as no number, has the empty text for every number, and raises on the
  conversion of every object.
\<close>

definition sample_engine :: engine where
  "sample_engine =
     \<lparr>toISOString = (\<lambda>t. if t = 10 then ''1970-01-01T00:00:00.010Z''
                          else if t = 20 then ''1970-01-01T00:00:00.020Z''
                          else ''1970-01-01T00:00:00.000Z''),
      parseDate = (\<lambda>v. if v = Str ''1970-01-01T00:00:00.010Z'' then Some 10
                        else if v = Str ''1970-01-01T00:00:00.020Z'' then Some 20
                        else if v = Str ''1970-01-01T00:00:00.000Z'' then Some 0
                        else None),
      toPrimitive = (\<lambda>h v. Inl TypeError),
      numberOfText = (\<lambda>s. NaN),
      textOfNumber = (\<lambda>n. []),
      toLowerCase = ascii_lower,
      splitWhiteSpace = ascii_split,
      sliceText = (\<lambda>s n. take n s),
      textLength = length,
      textUnits = (\<lambda>s. map (\<lambda>c. [c]) s)\<rparr>"

text \<open>
  The document that \<^verbatim>\<open>JSON.stringify\<close> writes for a value, over the store \<open>h\<close>. A property
  whose value is \<^verbatim>\<open>undefined\<close> is left out and an \<^verbatim>\<open>undefined\<close> element of an array is
  written \<^verbatim>\<open>null\<close>, as are a number that is not finite and an invalid date; a valid date is
  written as the text of \<^verbatim>\<open>toISOString\<close>; the named properties of an array are not written.
  \<open>stk\<close> holds the addresses of the objects that are being written: meeting one of them
  again is a cycle, on which \<^verbatim>\<open>JSON.stringify\<close> raises a TypeError.
\<close>

lemma card_stack:
  assumes "(a::nat) < n" and "a \<notin> set stk"
  shows "card ({..<n} - set stk) - Suc 0 < card ({..<n} - set stk)"
proof -
  from assms have "a \<in> {..<n} - set stk" by simp
  moreover have "finite ({..<n} - set stk)" by simp
  ultimately have "card ({..<n} - set stk) \<noteq> 0"
    by (auto simp: card_eq_0_iff)
  then show ?thesis by linarith
qed

function ser :: "(int \<Rightarrow> string) \<Rightarrow> jsval list \<Rightarrow> nat list \<Rightarrow> jsval \<Rightarrow> error + json option"
  and ser_list :: "(int \<Rightarrow> string) \<Rightarrow> jsval list \<Rightarrow> nat list \<Rightarrow> jsval list \<Rightarrow> error + json list"
  and ser_members ::
    "(int \<Rightarrow> string) \<Rightarrow> jsval list \<Rightarrow> nat list \<Rightarrow> (string \<times> jsval) list \<Rightarrow> error + (string \<times> json) list"
where
  "ser dtext h stk Undefined = Inr None"
| "ser dtext h stk Null = Inr (Some JNull)"
| "ser dtext h stk (Bool b) = Inr (Some (JBool b))"
| "ser dtext h stk (Num x) = Inr (Some (case x of Fin r \<Rightarrow> JNum r | _ \<Rightarrow> JNull))"
| "ser dtext h stk (Str s) = Inr (Some (JStr s))"
| "ser dtext h stk (DateV t) = Inr (Some (case t of Some x \<Rightarrow> JStr (dtext x) | None \<Rightarrow> JNull))"
| "ser dtext h stk (Arr xs ps) =
     (case ser_list dtext h stk xs of Inl err \<Rightarrow> Inl err | Inr js \<Rightarrow> Inr (Some (JArr js)))"
| "ser dtext h stk (Obj ps) =
     (case ser_members dtext h stk ps of Inl err \<Rightarrow> Inl err | Inr ms \<Rightarrow> Inr (Some (JObj ms)))"
| "ser dtext h stk (Ref a) =
     (if a \<in> set stk then Inl TypeError
      else if a < length h then ser dtext h (a # stk) (h ! a)
      else Inr None)"
| "ser_list dtext h stk [] = Inr []"
| "ser_list dtext h stk (x # xs) =
     (case ser dtext h stk x of
        Inl err \<Rightarrow> Inl err
      | Inr j \<Rightarrow>
          (case ser_list dtext h stk xs of
             Inl err \<Rightarrow> Inl err
           | Inr js \<Rightarrow> Inr ((case j of None \<Rightarrow> JNull | Some v \<Rightarrow> v) # js)))"
| "ser_members dtext h stk [] = Inr []"
| "ser_members dtext h stk ((k, v) # ps) =
     (case ser dtext h stk v of
        Inl err \<Rightarrow> Inl err
      | Inr j \<Rightarrow>
          (case ser_members dtext h stk ps of
             Inl err \<Rightarrow> Inl err
           | Inr ms \<Rightarrow> Inr (case j of None \<Rightarrow> ms | Some x \<Rightarrow> (k, x) # ms)))"
  by pat_completeness auto
termination
  by (relation "inv_image (less_than <*lex*> less_than)
    (\<lambda>x. case x of
       Inl (dtext, h, stk, v) \<Rightarrow> (card ({..<length h} - set stk), size v)
     | Inr (Inl (dtext, h, stk, xs)) \<Rightarrow> (card ({..<length h} - set stk), size_list size xs)
     | Inr (Inr (dtext, h, stk, ps)) \<Rightarrow>
         (card ({..<length h} - set stk), size_list (size_prod (\<lambda>k. 0) size) ps))")
    (auto simp: card_stack)

declare ser.simps [simp del]

section \<open>Task manager\<close>

datatype task_status = Pending | InProgressT | CompletedT | FailedT | CancelledT

fun status_str :: "task_status \<Rightarrow> string" where
  "status_str Pending = ''pending''"
| "status_str InProgressT = ''in-progress''"
| "status_str CompletedT = ''completed''"
| "status_str FailedT = ''failed''"
| "status_str CancelledT = ''cancelled''"

datatype priority = Low | Medium | High | Critical

fun priority_str :: "priority \<Rightarrow> string" where
  "priority_str Low = ''low''"
| "priority_str Medium = ''medium''"
| "priority_str High = ''high''"
| "priority_str Critical = ''critical''"

datatype category =
    Development | Bugfix | Documentation | Refactoring | Security
  | Performance | Feature | Maintenance | Research

fun category_str :: "category \<Rightarrow> string" where
  "category_str Development = ''development''"
| "category_str Bugfix = ''bugfix''"
| "category_str Documentation = ''documentation''"
| "category_str Refactoring = ''refactoring''"
| "category_str Security = ''security''"
| "category_str Performance = ''performance''"
| "category_str Feature = ''feature''"
| "category_str Maintenance = ''maintenance''"
| "category_str Research = ''research''"

text \<open>
  The state of the module. The task objects live in a store, addressed by their position:
  the \<^verbatim>\<open>tasks\<close> map and the \<open>subtasks\<close> array of a parent refer to the same object. \<open>tasks\<close>
  is the \<^verbatim>\<open>Map\<close>, in insertion order, from a key to the address of its task object.
\<close>

record task_state =
  heap :: "jsval list"
  tasks :: "(jsval \<times> nat) list"

definition empty_tasks :: task_state where
  "empty_tasks = \<lparr>heap = [], tasks = []\<rparr>"

definition deref :: "jsval list \<Rightarrow> nat \<Rightarrow> jsval" where
  "deref h a = (if a < length h then h ! a else Undefined)"

text \<open>The property \<open>k\<close> of the task object at address \<open>a\<close>.\<close>

definition field :: "jsval list \<Rightarrow> nat \<Rightarrow> string \<Rightarrow> jsval" where
  "field h a k = lookup (props_of (deref h a)) k"

text \<open>
  \<^verbatim>\<open>createTask\<close> (task-manager.ts, lines 30 to 64), with its arguments as its signature
  types them. \<open>newId\<close> is what \<^verbatim>\<open>generateTaskId()\<close> returns (a text built from the clock and
  \<^verbatim>\<open>Math.random()\<close>) and \<open>now\<close> the clock reading of the call.
\<close>

record task_params =
  title :: string
  description :: string
  priority :: "priority option"
  category :: "category option"
  parentTaskId :: "string option"
  dependencies :: "string list option"

definition new_task :: "task_params \<Rightarrow> string \<Rightarrow> int \<Rightarrow> jsval" where
  "new_task p newId now =
     Obj [(''id'', Str newId),
          (''title'', Str (title p)),
          (''description'', Str (description p)),
          (''status'', Str ''pending''),
          (''priority'', Str (priority_str (case priority p of None \<Rightarrow> Medium | Some x \<Rightarrow> x))),
          (''category'', Str (category_str (case category p of None \<Rightarrow> Development | Some x \<Rightarrow> x))),
          (''createdAt'', DateV (Some now)),
          (''updatedAt'', DateV (Some now)),
          (''parentTaskId'', opt_str (parentTaskId p)),
          (''dependencies'',
             case dependencies p of None \<Rightarrow> Undefined | Some ds \<Rightarrow> Arr (map Str ds) [])]"

text \<open>
  The block that adds a subtask to its parent (lines 54 to 61): the parent is looked up after
  the new task has been stored; its \<open>subtasks\<close> becomes \<^verbatim>\<open>parent.subtasks || []\<close>, the new
  task is pushed (a value without \<^verbatim>\<open>push\<close> raises a TypeError) and \<open>updatedAt\<close> is set.
\<close>

definition push_ref :: "jsval \<Rightarrow> nat \<Rightarrow> error + jsval" where
  "push_ref subs a = (case subs of Arr xs ps \<Rightarrow> Inr (Arr (xs @ [Ref a]) ps) | _ \<Rightarrow> Inl TypeError)"

definition add_to_parent :: "string \<Rightarrow> nat \<Rightarrow> int \<Rightarrow> task_state \<Rightarrow> error + task_state" where
  "add_to_parent pid a now s =
     (case map_of (tasks s) (Str pid) of
        None \<Rightarrow> Inr s
      | Some pa \<Rightarrow>
          (let old = field (heap s) pa ''subtasks'';
               subs = (if truthy old then old else Arr [] [])
           in case set_prop (deref (heap s) pa) ''subtasks'' subs of
                Inl err \<Rightarrow> Inl err
              | Inr parent1 \<Rightarrow>
                  (case push_ref subs a of
                     Inl err \<Rightarrow> Inl err
                   | Inr subs' \<Rightarrow>
                       (case set_prop parent1 ''subtasks'' subs' of
                          Inl err \<Rightarrow> Inl err
                        | Inr parent2 \<Rightarrow>
                            (case set_prop parent2 ''updatedAt'' (DateV (Some now)) of
                               Inl err \<Rightarrow> Inl err
                             | Inr parent3 \<Rightarrow> Inr (s\<lparr>heap := (heap s)[pa := parent3]\<rparr>))))))"

definition createTask ::
  "task_params \<Rightarrow> string \<Rightarrow> int \<Rightarrow> task_state \<Rightarrow> (error + jsval) \<times> task_state" where
  "createTask p newId now s =
     (let a = length (heap s);
          s1 = s\<lparr>heap := heap s @ [new_task p newId now],
                 tasks := map_set (Str newId) a (tasks s)\<rparr>
      in case parentTaskId p of
           None \<Rightarrow> (Inr (Ref a), s1)
         | Some pid \<Rightarrow>
             if pid = [] then (Inr (Ref a), s1)
             else (case add_to_parent pid a now s1 of
                     Inl err \<Rightarrow> (Inl err, s1)
                   | Inr s2 \<Rightarrow> (Inr (Ref a), s2)))"

text \<open>
  \<^verbatim>\<open>listTasks\<close> (task-manager.ts, lines 165 to 207). The result is the list of the
  addresses of the tasks. A filter that is absent is \<open>None\<close>; a limit of zero is falsy and
  does not cut the list.
\<close>

datatype status_filter = AllStatuses | Status task_status

record task_filters =
  f_status :: "status_filter option"
  f_category :: "category option"
  f_priority :: "priority option"
  f_limit :: "int option"

definition no_filters :: task_filters where
  "no_filters = \<lparr>f_status = None, f_category = None, f_priority = None, f_limit = None\<rparr>"

text \<open>
  \<^verbatim>\<open>priorityOrder[x]\<close> as a number: a value that is not one of the four priorities has no
  rank, and the difference of the ranks is then NaN.
\<close>

definition priority_rank :: "jsval \<Rightarrow> jsnum" where
  "priority_rank v =
     (if v = Str ''critical'' then Fin 0
      else if v = Str ''high'' then Fin 1
      else if v = Str ''medium'' then Fin 2
      else if v = Str ''low'' then Fin 3
      else NaN)"

text \<open>
  \<^verbatim>\<open>x.getTime()\<close>. Every object that \<^verbatim>\<open>createTask\<close> or \<^verbatim>\<open>importTasks\<close> stores has a
  \<^verbatim>\<open>Date\<close> under \<open>createdAt\<close>, and no function of the module writes that property afterwards;
  on another value the call would raise a TypeError, which is not modelled.
\<close>

definition getTime :: "jsval \<Rightarrow> jsnum" where
  "getTime v = (case v of DateV (Some t) \<Rightarrow> Fin (real_of_int t) | _ \<Rightarrow> NaN)"

definition compare_tasks :: "jsval list \<Rightarrow> nat \<Rightarrow> nat \<Rightarrow> jsnum" where
  "compare_tasks h a b =
     (let priorityDiff = js_sub (priority_rank (field h a ''priority''))
                               (priority_rank (field h b ''priority''))
      in if priorityDiff \<noteq> Fin 0 then priorityDiff
         else js_sub (getTime (field h b ''createdAt'')) (getTime (field h a ''createdAt'')))"

definition status_matches :: "status_filter option \<Rightarrow> jsval \<Rightarrow> bool" where
  "status_matches f v =
     (case f of Some (Status st) \<Rightarrow> v = Str (status_str st) | _ \<Rightarrow> True)"

definition category_matches :: "category option \<Rightarrow> jsval \<Rightarrow> bool" where
  "category_matches f v = (case f of Some c \<Rightarrow> v = Str (category_str c) | None \<Rightarrow> True)"

definition priority_matches :: "priority option \<Rightarrow> jsval \<Rightarrow> bool" where
  "priority_matches f v = (case f of Some x \<Rightarrow> v = Str (priority_str x) | None \<Rightarrow> True)"

definition listTasks :: "task_filters \<Rightarrow> task_state \<Rightarrow> nat list" where
  "listTasks filters s =
     (let h = heap s;
          result = map snd (tasks s);
          result = filter (\<lambda>t. \<not> truthy (field h t ''parentTaskId'')) result;
          result = filter (\<lambda>t. status_matches (f_status filters) (field h t ''status'')) result;
          result = filter (\<lambda>t. category_matches (f_category filters) (field h t ''category'')) result;
          result = filter (\<lambda>t. priority_matches (f_priority filters) (field h t ''priority'')) result;
          result = sort_by (compare_tasks h) result
      in case f_limit filters of
           None \<Rightarrow> result
         | Some n \<Rightarrow> if n = 0 then result else slice0 n result)"

text \<open>
  \<^verbatim>\<open>exportTasks\<close> (task-manager.ts, lines 282 to 285): the document of the array of the
  task objects, in the order of the map.
\<close>

definition exportTasks :: "engine \<Rightarrow> task_state \<Rightarrow> error + json" where
  "exportTasks eng s =
     (case ser_list (toISOString eng) (heap s) [] (map (\<lambda>entry. Ref (snd entry)) (tasks s)) of
        Inl err \<Rightarrow> Inl err
      | Inr js \<Rightarrow> Inr (JArr js))"

text \<open>
  The body of the loop of \<^verbatim>\<open>importTasks\<close> (lines 296 to 304) for one element of the parsed
  array: the three date properties are converted, and the object is stored under its \<open>id\<close>.
\<close>

definition import_task :: "engine \<Rightarrow> jsval \<Rightarrow> task_state \<Rightarrow> error + task_state" where
  "import_task eng task s =
     and_then (get_prop task ''createdAt'') (\<lambda>c.
     and_then (new_Date eng c) (\<lambda>created.
     and_then (set_prop task ''createdAt'' created) (\<lambda>t1.
     and_then (get_prop t1 ''updatedAt'') (\<lambda>u.
     and_then (new_Date eng u) (\<lambda>updated.
     and_then (set_prop t1 ''updatedAt'' updated) (\<lambda>t2.
     and_then (get_prop t2 ''completedAt'') (\<lambda>d.
     and_then (if truthy d
               then and_then (new_Date eng d) (\<lambda>completed. set_prop t2 ''completedAt'' completed)
               else Inr t2) (\<lambda>t3.
     and_then (get_prop t3 ''id'') (\<lambda>i.
       Inr (s\<lparr>heap := heap s @ [t3],
              tasks := map_set i (length (heap s)) (tasks s)\<rparr>))))))))))"

fun import_loop :: "engine \<Rightarrow> jsval list \<Rightarrow> nat \<Rightarrow> task_state \<Rightarrow> (error + nat) \<times> task_state" where
  "import_loop eng [] imported s = (Inr imported, s)"
| "import_loop eng (task # rest) imported s =
     (case import_task eng task s of
        Inl err \<Rightarrow> (Inl err, s)
      | Inr s' \<Rightarrow> import_loop eng rest (Suc imported) s')"

text \<open>
  \<^verbatim>\<open>importTasks\<close> (task-manager.ts, lines 290 to 311). Whatever is raised inside the
  \<^verbatim>\<open>try\<close> block is caught and the function returns 0; what the loop stored before stays
  stored.
\<close>

definition importTasks :: "engine \<Rightarrow> json option \<Rightarrow> task_state \<Rightarrow> nat \<times> task_state" where
  "importTasks eng payload s =
     (case payload of
        None \<Rightarrow> (0, s)
      | Some doc \<Rightarrow>
          (case iterate (of_json doc) of
             Inl err \<Rightarrow> (0, s)
           | Inr taskArray \<Rightarrow>
               (case import_loop eng taskArray 0 s of
                  (Inl err, s') \<Rightarrow> (0, s')
                | (Inr imported, s') \<Rightarrow> (imported, s'))))"

text \<open>The shape that \<^verbatim>\<open>importTasks\<close> expects of a payload at its top level: an array.\<close>

definition is_task_array :: "json option \<Rightarrow> bool" where
  "is_task_array payload = (case payload of Some (JArr js) \<Rightarrow> True | _ \<Rightarrow> False)"

text \<open>
  The invariant of the registry: its keys are distinct (those that are objects are distinct
  by their identity, the others by their value), every key has a task object of its own,
  and the key of an object is its \<open>id\<close>. The empty registry has it, and \<^verbatim>\<open>createTask\<close> and
  \<^verbatim>\<open>importTasks\<close>, which store an object under its \<open>id\<close>, keep it.
\<close>

definition registry_ok :: "task_state \<Rightarrow> bool" where
  "registry_ok s =
     (distinct (filter (\<lambda>k. \<not> is_object k) (map fst (tasks s))) \<and>
      distinct (map snd (tasks s)) \<and>
      (\<forall>(k, a) \<in> set (tasks s). a < length (heap s) \<and> field (heap s) a ''id'' = k))"

text \<open>
  The order of \<^verbatim>\<open>listTasks\<close>: \<open>precedes h a b\<close> when \<open>a\<close> has the smaller priority rank
  (critical is 0, low is 3), or the same rank and a creation time that is not older. A
  task is well typed for the order when its priority is one of the four levels and its
  creation date is valid. \<open>selected\<close> is what the filters of \<^verbatim>\<open>listTasks\<close> keep: the tasks
  without a \<open>parentTaskId\<close> that match every filter given.
\<close>

definition rank_of :: "jsval list \<Rightarrow> nat \<Rightarrow> jsnum" where
  "rank_of h a = priority_rank (field h a ''priority'')"

definition created_of :: "jsval list \<Rightarrow> nat \<Rightarrow> jsnum" where
  "created_of h a = getTime (field h a ''createdAt'')"

definition precedes :: "jsval list \<Rightarrow> nat \<Rightarrow> nat \<Rightarrow> bool" where
  "precedes h a b =
     (js_gt (rank_of h b) (rank_of h a) \<or>
      (rank_of h a = rank_of h b \<and> \<not> js_gt (created_of h b) (created_of h a)))"

definition well_typed :: "jsval list \<Rightarrow> nat \<Rightarrow> bool" where
  "well_typed h a = (is_finite (rank_of h a) \<and> is_finite (created_of h a))"

definition top_level :: "jsval list \<Rightarrow> nat \<Rightarrow> bool" where
  "top_level h a = (\<not> truthy (field h a ''parentTaskId''))"

definition selected :: "task_filters \<Rightarrow> jsval list \<Rightarrow> nat \<Rightarrow> bool" where
  "selected f h a =
     (top_level h a \<and>
      status_matches (f_status f) (field h a ''status'') \<and>
      category_matches (f_category f) (field h a ''category'') \<and>
      priority_matches (f_priority f) (field h a ''priority''))"

section \<open>Learning manager\<close>

datatype outcome = Success | Failure | Partial

fun outcome_str :: "outcome \<Rightarrow> string" where
  "outcome_str Success = ''success''"
| "outcome_str Failure = ''failure''"
| "outcome_str Partial = ''partial''"

text \<open>
  The state of the module: the \<^verbatim>\<open>learnings\<close> map (a \<^verbatim>\<open>Map\<close> keeps its keys in insertion
  order) and the \<^verbatim>\<open>metrics\<close> object, held as its properties. \<^verbatim>\<open>AgentMetrics\<close> types six of
  them as numbers and \<open>lastActiveAt\<close> as a \<^verbatim>\<open>Date\<close>, but \<^verbatim>\<open>importLearnings\<close> assigns whatever
  a payload holds, so a metric is a value and is read as a number where the program
  computes with it.
\<close>

record learning_state =
  learnings :: "(jsval \<times> jsval) list"
  metrics :: "(string \<times> jsval) list"

text \<open>The module's initial state (learning-manager.ts, lines 9 to 18), loaded at time \<open>0\<close>.\<close>

definition initial_metrics :: "(string \<times> jsval) list" where
  "initial_metrics =
     [(''totalTasks'', Num (Fin 0)),
      (''completedTasks'', Num (Fin 0)),
      (''failedTasks'', Num (Fin 0)),
      (''averageCompletionTime'', Num (Fin 0)),
      (''successRate'', Num (Fin 0)),
      (''tokensUsed'', Num (Fin 0)),
      (''lastActiveAt'', DateV (Some 0))]"

definition initial_learning_state :: learning_state where
  "initial_learning_state = \<lparr>learnings = [], metrics = initial_metrics\<rparr>"

text \<open>
  Statements that run one after the other on a state: the first that raises ends the run,
  and the state is what the statements before it left.
\<close>

fun run_steps :: "('s \<Rightarrow> error + 's) list \<Rightarrow> 's \<Rightarrow> error option \<times> 's" where
  "run_steps [] s = (None, s)"
| "run_steps (f # fs) s = (case f s of Inl err \<Rightarrow> (Some err, s) | Inr s' \<Rightarrow> run_steps fs s')"

text \<open>
  The metrics part of \<^verbatim>\<open>recordLearning\<close> (learning-manager.ts, lines 51 to 59):
  \<^verbatim>\<open>metrics.k++\<close>, the success rate and the time of the last activity.
\<close>

definition increment :: "engine \<Rightarrow> string \<Rightarrow> (string \<times> jsval) list \<Rightarrow> error + (string \<times> jsval) list" where
  "increment eng k m =
     and_then (to_number eng (lookup m k)) (\<lambda>x.
       Inr (AList.update k (Num (js_add x (Fin 1))) m))"

definition set_successRate :: "engine \<Rightarrow> (string \<times> jsval) list \<Rightarrow> error + (string \<times> jsval) list" where
  "set_successRate eng m =
     and_then (to_number eng (lookup m ''completedTasks'')) (\<lambda>c.
     and_then (to_number eng (lookup m ''totalTasks'')) (\<lambda>t.
       Inr (AList.update ''successRate'' (Num (js_div c t)) m)))"

definition update_metrics_for ::
  "engine \<Rightarrow> outcome \<Rightarrow> int \<Rightarrow> (string \<times> jsval) list \<Rightarrow> error option \<times> (string \<times> jsval) list" where
  "update_metrics_for eng oc now m =
     run_steps
       [increment eng ''totalTasks'',
        (\<lambda>m. if oc = Success then increment eng ''completedTasks'' m
              else if oc = Failure then increment eng ''failedTasks'' m
              else Inr m),
        set_successRate eng,
        (\<lambda>m. Inr (AList.update ''lastActiveAt'' (DateV (Some now)) m))] m"

text \<open>
  \<^verbatim>\<open>recordLearning\<close> (learning-manager.ts, lines 32 to 62). \<open>newId\<close> is what
  \<^verbatim>\<open>generateLearningId()\<close> returns (a text built from the clock and \<^verbatim>\<open>Math.random()\<close>) and
  \<open>now\<close> the clock reading of the call. The result is the new entry, or the error that the
  update of the metrics raised, after the entry was stored.
\<close>

record learning_params =
  taskId :: string
  pattern :: string
  outcome :: outcome
  feedback :: "string option"
  improvement :: "string option"

definition new_entry :: "learning_params \<Rightarrow> string \<Rightarrow> int \<Rightarrow> jsval" where
  "new_entry p newId now =
     Obj [(''id'', Str newId),
          (''timestamp'', DateV (Some now)),
          (''taskId'', Str (taskId p)),
          (''pattern'', Str (pattern p)),
          (''outcome'', Str (outcome_str (outcome p))),
          (''feedback'', opt_str (feedback p)),
          (''improvement'', opt_str (improvement p))]"

definition recordLearning ::
  "engine \<Rightarrow> learning_params \<Rightarrow> string \<Rightarrow> int \<Rightarrow> learning_state \<Rightarrow> (error + jsval) \<times> learning_state" where
  "recordLearning eng p newId now s =
     (let entry = new_entry p newId now;
          updated = update_metrics_for eng (outcome p) now (metrics s)
      in (case fst updated of None \<Rightarrow> Inr entry | Some err \<Rightarrow> Inl err,
          s\<lparr>learnings := map_set (Str newId) entry (learnings s),
            metrics := snd updated\<rparr>))"

text \<open>
  What \<^verbatim>\<open>AgentMetrics\<close> declares of the three counters, as far as the properties below need
  it: a counter is readable when reading it as a number does not raise (every number is),
  and it holds a count when it is a number that is a count.
\<close>

definition readable :: "engine \<Rightarrow> jsval \<Rightarrow> bool" where
  "readable eng v = (case to_number eng v of Inl err \<Rightarrow> False | Inr x \<Rightarrow> True)"

definition counters_readable :: "engine \<Rightarrow> (string \<times> jsval) list \<Rightarrow> bool" where
  "counters_readable eng m =
     (readable eng (lookup m ''totalTasks'') \<and> readable eng (lookup m ''completedTasks'') \<and>
      readable eng (lookup m ''failedTasks''))"

definition holds_count :: "(string \<times> jsval) list \<Rightarrow> string \<Rightarrow> bool" where
  "holds_count m k = (case lookup m k of Num x \<Rightarrow> is_count x | _ \<Rightarrow> False)"

text \<open>
  \<^verbatim>\<open>findSimilarLearnings\<close> (learning-manager.ts, lines 67 to 92). The score of an entry is
  the number of the query's words that its lowercased pattern includes. Calling
  \<^verbatim>\<open>toLowerCase\<close> on a pattern that is not a string raises a TypeError.
\<close>

definition score_of :: "engine \<Rightarrow> string list \<Rightarrow> string \<Rightarrow> nat" where
  "score_of eng words entryPattern =
     length (filter (str_includes (toLowerCase eng entryPattern)) words)"

fun scored :: "engine \<Rightarrow> string list \<Rightarrow> jsval list \<Rightarrow> error + (jsval \<times> nat) list" where
  "scored eng words [] = Inr []"
| "scored eng words (e # es) =
     (case get_prop e ''pattern'' of
        Inr (Str p) \<Rightarrow>
          (case scored eng words es of
             Inl err \<Rightarrow> Inl err
           | Inr rest \<Rightarrow> Inr ((e, score_of eng words p) # rest))
      | _ \<Rightarrow> Inl TypeError)"

definition by_score_desc :: "jsval \<times> nat \<Rightarrow> jsval \<times> nat \<Rightarrow> jsnum" where
  "by_score_desc a b = js_sub (Fin (real (snd b))) (Fin (real (snd a)))"

definition findSimilarLearnings ::
  "engine \<Rightarrow> string \<Rightarrow> int \<Rightarrow> learning_state \<Rightarrow> error + jsval list" where
  "findSimilarLearnings eng query limit s =
     (let patternLower = toLowerCase eng query;
          words = splitWhiteSpace eng patternLower
      in case scored eng words (map snd (learnings s)) of
           Inl err \<Rightarrow> Inl err
         | Inr items \<Rightarrow>
             Inr (map fst (slice0 limit (sort_by by_score_desc
                    (filter (\<lambda>item. snd item > 0) items)))))"

text \<open>
  The match count of an entry for a query, as \<^verbatim>\<open>findSimilarLearnings\<close> computes it, and the
  property the specification names: the query and the pattern share a whole word.
\<close>

definition match_count :: "engine \<Rightarrow> string \<Rightarrow> jsval \<Rightarrow> nat" where
  "match_count eng query e =
     (case get_prop e ''pattern'' of
        Inr (Str p) \<Rightarrow> score_of eng (splitWhiteSpace eng (toLowerCase eng query)) p
      | _ \<Rightarrow> 0)"

definition contains_query_word :: "engine \<Rightarrow> string \<Rightarrow> jsval \<Rightarrow> bool" where
  "contains_query_word eng query e =
     (case get_prop e ''pattern'' of
        Inr (Str p) \<Rightarrow>
          list_ex (str_includes (toLowerCase eng p)) (splitWhiteSpace eng (toLowerCase eng query))
      | _ \<Rightarrow> False)"

definition shares_word :: "engine \<Rightarrow> string \<Rightarrow> string \<Rightarrow> bool" where
  "shares_word eng a b =
     list_ex (\<lambda>w. w \<noteq> [] \<and> w \<in> set (splitWhiteSpace eng (toLowerCase eng b)))
       (splitWhiteSpace eng (toLowerCase eng a))"

text \<open>
  \<^verbatim>\<open>recordCompletionTime\<close> (learning-manager.ts, lines 160 to 164): the operands are read
  as numbers in the order in which the operators apply (the subtraction before the
  multiplication), and the average is assigned last.
\<close>

definition recordCompletionTime_m ::
  "engine \<Rightarrow> jsnum \<Rightarrow> (string \<times> jsval) list \<Rightarrow> error + (string \<times> jsval) list" where
  "recordCompletionTime_m eng durationMs m =
     and_then (to_number eng (lookup m ''completedTasks'')) (\<lambda>completed.
     and_then (to_number eng (lookup m ''averageCompletionTime'')) (\<lambda>average.
     (let totalTime = js_mul average (js_sub completed (Fin 1))
      in and_then (to_number eng (lookup m ''completedTasks'')) (\<lambda>completed'.
           Inr (AList.update ''averageCompletionTime''
                  (Num (js_div (js_add totalTime durationMs) completed')) m)))))"

definition recordCompletionTime :: "engine \<Rightarrow> jsnum \<Rightarrow> learning_state \<Rightarrow> error + learning_state" where
  "recordCompletionTime eng durationMs s =
     and_then (recordCompletionTime_m eng durationMs (metrics s)) (\<lambda>m. Inr (s\<lparr>metrics := m\<rparr>))"

text \<open>\<^verbatim>\<open>addTokensUsed\<close> (learning-manager.ts, lines 153 to 155).\<close>

definition addTokensUsed :: "engine \<Rightarrow> jsnum \<Rightarrow> learning_state \<Rightarrow> error + learning_state" where
  "addTokensUsed eng n s =
     and_then (js_plus eng (lookup (metrics s) ''tokensUsed'') n) (\<lambda>v.
       Inr (s\<lparr>metrics := AList.update ''tokensUsed'' v (metrics s)\<rparr>))"

text \<open>
  \<^verbatim>\<open>exportLearnings\<close> (learning-manager.ts, lines 176 to 183), at the time \<open>now\<close>: the
  document of the entries, of a copy of the metrics object and of the time.
\<close>

definition exportLearnings :: "engine \<Rightarrow> int \<Rightarrow> learning_state \<Rightarrow> error + json" where
  "exportLearnings eng now s =
     (case ser_list (toISOString eng) [] [] (map snd (learnings s)) of
        Inl err \<Rightarrow> Inl err
      | Inr js \<Rightarrow>
          (case ser_members (toISOString eng) [] [] (metrics s) of
             Inl err \<Rightarrow> Inl err
           | Inr ms \<Rightarrow>
               Inr (JObj [(''learnings'', JArr js),
                          (''metrics'', JObj ms),
                          (''exportedAt'', JStr (toISOString eng now))])))"

text \<open>
  \<^verbatim>\<open>Object.assign(metrics, data.metrics)\<close> and the statement after it (lines 201 and 202):
  every own property of the payload's value is written to the metrics object under its
  name, with its value as it is, and \<open>lastActiveAt\<close> is set to the clock. Writing the name
  \<^verbatim>\<open>__proto__\<close> calls the setter of \<^verbatim>\<open>Object.prototype\<close>, which creates no property.
\<close>

definition assign_property :: "string \<times> jsval \<Rightarrow> (string \<times> jsval) list \<Rightarrow> (string \<times> jsval) list" where
  "assign_property kv m = (if fst kv = ''__proto__'' then m else AList.update (fst kv) (snd kv) m)"

definition assign_metrics ::
  "engine \<Rightarrow> jsval \<Rightarrow> int \<Rightarrow> (string \<times> jsval) list \<Rightarrow> (string \<times> jsval) list" where
  "assign_metrics eng v now m =
     AList.update ''lastActiveAt'' (DateV (Some now)) (fold assign_property (own_entries eng v) m)"

text \<open>
  The loop of \<^verbatim>\<open>importLearnings\<close> (lines 194 to 198) and the function (lines 188 to 210).
  Whatever is raised inside the \<^verbatim>\<open>try\<close> block is caught and the function returns 0; what
  the loop stored before stays stored.
\<close>

definition import_entry :: "engine \<Rightarrow> jsval \<Rightarrow> learning_state \<Rightarrow> error + learning_state" where
  "import_entry eng entry s =
     and_then (get_prop entry ''timestamp'') (\<lambda>ts.
     and_then (new_Date eng ts) (\<lambda>time.
     and_then (set_prop entry ''timestamp'' time) (\<lambda>e1.
     and_then (get_prop e1 ''id'') (\<lambda>i.
       Inr (s\<lparr>learnings := map_set i e1 (learnings s)\<rparr>)))))"

fun import_entries ::
  "engine \<Rightarrow> jsval list \<Rightarrow> nat \<Rightarrow> learning_state \<Rightarrow> (error + nat) \<times> learning_state" where
  "import_entries eng [] imported s = (Inr imported, s)"
| "import_entries eng (entry # rest) imported s =
     (case import_entry eng entry s of
        Inl err \<Rightarrow> (Inl err, s)
      | Inr s' \<Rightarrow> import_entries eng rest (Suc imported) s')"

definition importLearnings ::
  "engine \<Rightarrow> json option \<Rightarrow> int \<Rightarrow> learning_state \<Rightarrow> nat \<times> learning_state" where
  "importLearnings eng payload now s =
     (case payload of
        None \<Rightarrow> (0, s)
      | Some doc \<Rightarrow>
          (let data = of_json doc
           in case get_prop data ''learnings'' of
                Inl err \<Rightarrow> (0, s)
              | Inr ls \<Rightarrow>
                  (case (if truthy ls
                         then (case iterate ls of
                                 Inl err \<Rightarrow> (Inl err, s)
                               | Inr entries \<Rightarrow> import_entries eng entries 0 s)
                         else (Inr 0, s)) of
                     (Inl err, s1) \<Rightarrow> (0, s1)
                   | (Inr imported, s1) \<Rightarrow>
                       (let m = lookup (props_of data) ''metrics''
                        in if truthy m
                           then (imported,
                                 s1\<lparr>metrics := assign_metrics eng m now (metrics s1)\<rparr>)
                           else (imported, s1)))))"

text \<open>
  The shape that \<^verbatim>\<open>importLearnings\<close> expects of a payload at its top level: an object whose
  \<open>learnings\<close> member is an array. A payload of another shape still reaches the assignment
  of the metrics when it is a document whose \<open>learnings\<close> is missing or falsy and whose
  \<open>metrics\<close> is truthy; \<open>metrics_of\<close> is that value.
\<close>

definition is_learning_envelope :: "json option \<Rightarrow> bool" where
  "is_learning_envelope payload =
     (case payload of
        Some (JObj ms) \<Rightarrow>
          (case lookup (of_json_members [] ms) ''learnings'' of Arr xs ps \<Rightarrow> True | _ \<Rightarrow> False)
      | _ \<Rightarrow> False)"

definition metrics_of :: "json option \<Rightarrow> jsval" where
  "metrics_of payload =
     (case payload of None \<Rightarrow> Undefined | Some doc \<Rightarrow> lookup (props_of (of_json doc)) ''metrics'')"

definition assigns_metrics :: "json option \<Rightarrow> bool" where
  "assigns_metrics payload =
     (case payload of
        None \<Rightarrow> False
      | Some doc \<Rightarrow>
          (case get_prop (of_json doc) ''learnings'' of
             Inl err \<Rightarrow> False
           | Inr ls \<Rightarrow> \<not> truthy ls \<and> truthy (metrics_of payload)))"

section \<open>Remote conversation client\<close>

text \<open>
  The vendor's run object, as far as \<^verbatim>\<open>waitForRunCompletion\<close> reads it: its status, the
  message of \<^verbatim>\<open>last_error\<close> (\<open>None\<close> when there is no last error) and the required action.
\<close>

datatype run_status =
    Queued | InProgress | RequiresAction | Cancelling
  | Completed | Failed | Cancelled | Expired | Incomplete

record tool_call =
  call_id :: string
  fn_name :: string
  fn_arguments :: string

datatype required_action = SubmitToolOutputs "tool_call list" | OtherAction

record run =
  run_status :: run_status
  last_error :: "string option"
  required_action :: "required_action option"

text \<open>
  The remote service and the clock are the environment of the loop. Iteration \<open>i\<close> of the
  loop retrieves the run (which succeeds with a run or raises), may submit tool outputs
  (which succeeds or raises) and then sleeps for the poll interval; \<open>elapsed\<close> is the time in
  milliseconds that the awaited calls of the iteration take on top of the sleep. The clock
  is taken to be monotone, and every awaited call to settle.
\<close>

record poll =
  retrieve :: "error + run"
  submit :: "(string \<times> string) list \<Rightarrow> error + unit"
  elapsed :: nat

text \<open>\<^verbatim>\<open>NEXIFYAI_CONFIG.timeoutMs\<close> and \<^verbatim>\<open>NEXIFYAI_CONFIG.pollIntervalMs\<close> (config.ts).\<close>

definition timeoutMs :: int where
  "timeoutMs = 120000"

definition pollIntervalMs :: int where
  "pollIntervalMs = 1000"

text \<open>
  The tool call handler runs the calls against the state \<open>'w\<close> of its caller and returns
  the outputs by call identifier, or raises.
\<close>

type_synonym 'w handler = "tool_call list \<Rightarrow> 'w \<Rightarrow> (error + (string \<times> string) list) \<times> 'w"

text \<open>\<^verbatim>\<open>run.last_error?.message || 'Unknown error'\<close>\<close>

definition vendor_message :: "run \<Rightarrow> string" where
  "vendor_message r =
     (case last_error r of
        Some m \<Rightarrow> if m \<noteq> [] then m else ''Unknown error''
      | None \<Rightarrow> ''Unknown error'')"

text \<open>\<^verbatim>\<open>results[tc.id] || 'Tool execution completed'\<close> for every call.\<close>

definition tool_outputs :: "tool_call list \<Rightarrow> (string \<times> string) list \<Rightarrow> (string \<times> string) list" where
  "tool_outputs calls results =
     map (\<lambda>tc. (call_id tc,
                 case map_of results (call_id tc) of
                   Some out \<Rightarrow> if out \<noteq> [] then out else ''Tool execution completed''
                 | None \<Rightarrow> ''Tool execution completed'')) calls"

text \<open>
  The loop of \<^verbatim>\<open>waitForRunCompletion\<close> (client.ts, lines 509 to 556) from its iteration
  \<open>i\<close>, entered at time \<open>now\<close>. It returns the completed run or the error raised, and the
  state that the handler left.
\<close>

function waitLoop ::
  "(nat \<Rightarrow> poll) \<Rightarrow> 'w handler option \<Rightarrow> int \<Rightarrow> nat \<Rightarrow> int \<Rightarrow> 'w \<Rightarrow> (error + run) \<times> 'w" where
  "waitLoop env onToolCall startTime i now w =
     (if now - startTime < timeoutMs then
        (case retrieve (env i) of
           Inl err \<Rightarrow> (Inl err, w)
         | Inr r \<Rightarrow>
             (case run_status r of
                Completed \<Rightarrow> (Inr r, w)
              | Failed \<Rightarrow> (Inl (Error (''Run failed: '' @ vendor_message r)), w)
              | Cancelled \<Rightarrow> (Inl (Error ''Run was cancelled''), w)
              | Expired \<Rightarrow> (Inl (Error ''Run expired''), w)
              | RequiresAction \<Rightarrow>
                  (case (required_action r, onToolCall) of
                     (Some (SubmitToolOutputs toolCalls), Some f) \<Rightarrow>
                       (case f toolCalls w of
                          (Inl err, w') \<Rightarrow> (Inl err, w')
                        | (Inr results, w') \<Rightarrow>
                            (case submit (env i) (tool_outputs toolCalls results) of
                               Inl err \<Rightarrow> (Inl err, w')
                             | Inr _ \<Rightarrow>
                                 waitLoop env onToolCall startTime (Suc i)
                                   (now + int (elapsed (env i)) + pollIntervalMs) w'))
                   | _ \<Rightarrow>
                       waitLoop env onToolCall startTime (Suc i)
                         (now + int (elapsed (env i)) + pollIntervalMs) w)
              | _ \<Rightarrow>
                  waitLoop env onToolCall startTime (Suc i)
                    (now + int (elapsed (env i)) + pollIntervalMs) w))
      else (Inl (Error ''Run timed out''), w))"
  by pat_completeness auto
termination
  by (relation "measure (\<lambda>(env, h, startTime, i, now, w). nat (timeoutMs - (now - startTime)))")
    (auto simp: pollIntervalMs_def)

declare waitLoop.simps [simp del]

text \<open>
  \<^verbatim>\<open>waitForRunCompletion\<close> (client.ts, lines 501 to 557). \<open>client\<close> is the outcome of
  \<^verbatim>\<open>getOpenAIClient()\<close>, which raises when no API key is configured; \<open>startTime\<close> is the
  clock reading at the call.
\<close>

definition waitForRunCompletion ::
  "error + unit \<Rightarrow> (nat \<Rightarrow> poll) \<Rightarrow> 'w handler option \<Rightarrow> int \<Rightarrow> 'w \<Rightarrow> (error + run) \<times> 'w" where
  "waitForRunCompletion client env onToolCall startTime w =
     (case client of
        Inl err \<Rightarrow> (Inl err, w)
      | Inr _ \<Rightarrow> waitLoop env onToolCall startTime 0 startTime w)"






section \<open>Agent orchestrator\<close>

text \<open>
  The session, as far as \<^verbatim>\<open>processMessage\<close> reads and writes it, and the state of the agent:
  the active session and the two registries, which the tool calls of a run change.
\<close>

record chat_message =
  msg_id :: string
  msg_role :: string
  content :: string
  msg_time :: int

datatype session_status = Active | Idle | Processing | Errored

record session =
  threadId :: string
  runId :: "string option"
  status :: session_status
  lastActivityAt :: int
  messages :: "chat_message list"
  session_tasks :: "jsval list"

record agent_state =
  activeSession :: "session option"
  learning :: learning_state
  registry :: task_state

text \<open>
  The environment of one call of \<^verbatim>\<open>processMessage\<close>: the outcome of every remote call (a
  value, or the error it raises), the polls of the run, the identifier that
  \<^verbatim>\<open>generateLearningId()\<close> returns, the clock readings, and the message text of the engine's
  own errors.
\<close>

record agent_env =
  createThread_r :: "error + string"
  addMessage_r :: "error + chat_message"
  runAssistant_r :: "string \<Rightarrow> error + string"
  polls :: "nat \<Rightarrow> poll"
  getThreadMessages_r :: "error + chat_message list"
  newLearningId :: string
  time_session :: int
  time_start :: int
  time_added :: int
  time_wait :: int
  time_end :: int
  engine_text :: "error \<Rightarrow> string"

text \<open>The session object is shared; a write to it is a write to the active session.\<close>

definition with_session :: "(session \<Rightarrow> session) \<Rightarrow> agent_state \<Rightarrow> agent_state" where
  "with_session f st = st\<lparr>activeSession := map_option f (activeSession st)\<rparr>"

text \<open>\<^verbatim>\<open>getSession\<close> and \<^verbatim>\<open>initializeSession\<close> (agent.ts, lines 41 to 67).\<close>

definition getSession :: "agent_env \<Rightarrow> agent_state \<Rightarrow> (error + session) \<times> agent_state" where
  "getSession env st =
     (case activeSession st of
        Some se \<Rightarrow> (Inr se, st)
      | None \<Rightarrow>
          (case createThread_r env of
             Inl err \<Rightarrow> (Inl err, st)
           | Inr tid \<Rightarrow>
               (let se = \<lparr>threadId = tid, runId = None, status = Active,
                          lastActivityAt = time_session env, messages = [],
                          session_tasks = []\<rparr>
                in (Inr se, st\<lparr>activeSession := Some se\<rparr>))))"

text \<open>
  The statements of \<^verbatim>\<open>processMessage\<close> before its \<^verbatim>\<open>try\<close> block (lines 73 to 80): the
  session is fetched or created and the user message is appended to the thread.
\<close>

definition begin_message :: "agent_env \<Rightarrow> agent_state \<Rightarrow> (error + unit) \<times> agent_state" where
  "begin_message env st =
     (case getSession env st of
        (Inl err, st0) \<Rightarrow> (Inl err, st0)
      | (Inr se, st0) \<Rightarrow>
          (case addMessage_r env of
             Inl err \<Rightarrow> (Inl err, st0)
           | Inr userMsg \<Rightarrow>
               (Inr (),
                with_session (\<lambda>se. se\<lparr>messages := messages se @ [userMsg],
                                       lastActivityAt := time_added env,
                                       status := Processing\<rparr>) st0)))"

definition last_message :: "chat_message list \<Rightarrow> chat_message option" where
  "last_message ms = (if ms = [] then None else Some (last ms))"

text \<open>
  The additional instructions that the \<^verbatim>\<open>try\<close> block builds from the similar learnings
  (lines 94 to 104): one line for each learning, and one more for an improvement that is
  truthy. A template literal converts its substitutions to text, which raises for an object
  that has no primitive value. The characters outside ASCII are given in UTF-8.
\<close>

definition newline :: string where
  "newline = [char_of (10::nat)]"

definition arrow :: string where
  "arrow = [char_of (226::nat), char_of (134::nat), char_of (146::nat)]"

fun learning_lines :: "engine \<Rightarrow> jsval list \<Rightarrow> error + string" where
  "learning_lines eng [] = Inr []"
| "learning_lines eng (l # ls) =
     and_then (get_prop l ''pattern'') (\<lambda>p.
     and_then (to_text eng p) (\<lambda>patternText.
     and_then (get_prop l ''outcome'') (\<lambda>oc.
     and_then (to_text eng oc) (\<lambda>outcomeText.
     and_then (get_prop l ''improvement'') (\<lambda>im.
     and_then (if truthy im
               then and_then (to_text eng im) (\<lambda>t. Inr (''  '' @ arrow @ '' '' @ t @ newline))
               else Inr []) (\<lambda>improvementLine.
     and_then (learning_lines eng ls) (\<lambda>rest.
       Inr (''- '' @ patternText @ '' ('' @ outcomeText @ '')'' @ newline @
            improvementLine @ rest))))))))"

definition additional_instructions :: "engine \<Rightarrow> jsval list \<Rightarrow> error + string" where
  "additional_instructions eng similarLearnings =
     (if similarLearnings = [] then Inr []
      else and_then (learning_lines eng similarLearnings) (\<lambda>lines.
             Inr (newline @ newline @ ''Relevante fr'' @ [char_of (195::nat), char_of (188::nat)] @
                  ''here Learnings:'' @ newline @ lines)))"

text \<open>
  The statements of the \<^verbatim>\<open>try\<close> block that follow a response (lines 120 to 127): the
  response is appended to the session, the metrics are updated, the session becomes active.
  A metric that cannot be read as a number raises here, inside the \<^verbatim>\<open>try\<close> block.
\<close>

definition track_response ::
  "engine \<Rightarrow> agent_env \<Rightarrow> chat_message \<Rightarrow> agent_state \<Rightarrow> (error + string) \<times> agent_state" where
  "track_response eng env response st =
     (let st1 = with_session (\<lambda>se. se\<lparr>messages := messages se @ [response]\<rparr>) st
      in case addTokensUsed eng (Fin (real (textLength eng (content response)) / 4)) (learning st1) of
           Inl err \<Rightarrow> (Inl err, st1)
         | Inr l1 \<Rightarrow>
             (case recordCompletionTime eng (Fin (real_of_int (time_end env - time_start env))) l1 of
                Inl err \<Rightarrow> (Inl err, st1\<lparr>learning := l1\<rparr>)
              | Inr l2 \<Rightarrow>
                  (Inr (content response),
                   with_session (\<lambda>se. se\<lparr>status := Active\<rparr>) (st1\<lparr>learning := l2\<rparr>))))"

text \<open>
  The \<^verbatim>\<open>try\<close> block (lines 83 to 131). \<^verbatim>\<open>searchVectorStore\<close> returns no results and cannot
  raise. By the time of the wait the client exists, since \<^verbatim>\<open>addMessage\<close> has used it.
\<close>

definition process_body ::
  "engine \<Rightarrow> agent_env \<Rightarrow> agent_state handler \<Rightarrow> string \<Rightarrow> agent_state \<Rightarrow>
     (error + string) \<times> agent_state" where
  "process_body eng env handleToolCalls userMessage st =
     (case and_then (findSimilarLearnings eng userMessage 3 (learning st))
             (additional_instructions eng) of
        Inl err \<Rightarrow> (Inl err, st)
      | Inr additionalInstructions \<Rightarrow>
          (case runAssistant_r env additionalInstructions of
             Inl err \<Rightarrow> (Inl err, st)
           | Inr rid \<Rightarrow>
               (case waitForRunCompletion (Inr ()) (polls env) (Some handleToolCalls)
                       (time_wait env) (with_session (\<lambda>se. se\<lparr>runId := Some rid\<rparr>) st) of
                  (Inl err, st1) \<Rightarrow> (Inl err, st1)
                | (Inr r, st1) \<Rightarrow>
                    (case getThreadMessages_r env of
                       Inl err \<Rightarrow> (Inl err, st1)
                     | Inr msgs \<Rightarrow>
                         (case last_message msgs of
                            Some response \<Rightarrow> track_response eng env response st1
                          | None \<Rightarrow>
                              (Inr ''Keine Antwort erhalten.'',
                               with_session (\<lambda>se. se\<lparr>status := Active\<rparr>) st1))))))"

text \<open>
  The \<^verbatim>\<open>catch\<close> block (lines 132 to 147). The message of an error that is not an
  \<^verbatim>\<open>Error\<close> is \<open>Unbekannter Fehler\<close>. The two texts with characters outside ASCII are given
  in UTF-8. An error that \<^verbatim>\<open>recordLearning\<close> raises is not caught: the call is rejected
  with it.
\<close>

definition error_message :: "agent_env \<Rightarrow> error \<Rightarrow> string" where
  "error_message env err =
     (case err of
        Error m \<Rightarrow> m
      | Thrown \<Rightarrow> ''Unbekannter Fehler''
      | _ \<Rightarrow> engine_text env err)"

definition error_prefix :: string where
  "error_prefix =
     [char_of (226::nat), char_of (157::nat), char_of (140::nat)] @
     '' Fehler bei der Verarbeitung: ''"

definition improvement_text :: string where
  "improvement_text =
     ''Bessere Fehlerbehandlung f'' @ [char_of (195::nat), char_of (188::nat)] @
     ''r diese Art von Anfrage''"

definition failure_params :: "engine \<Rightarrow> string \<Rightarrow> string \<Rightarrow> learning_params" where
  "failure_params eng userMessage errorMessage =
     \<lparr>taskId = ''error'',
      pattern = ''Fehler bei Verarbeitung: '' @ sliceText eng userMessage 50,
      outcome = Failure,
      feedback = Some errorMessage,
      improvement = Some improvement_text\<rparr>"

definition catch_error ::
  "engine \<Rightarrow> agent_env \<Rightarrow> string \<Rightarrow> error \<Rightarrow> agent_state \<Rightarrow> (error + string) \<times> agent_state" where
  "catch_error eng env userMessage err st =
     (let st1 = with_session (\<lambda>se. se\<lparr>status := Errored\<rparr>) st;
          errorMessage = error_message env err;
          recorded = recordLearning eng (failure_params eng userMessage errorMessage)
                       (newLearningId env) (time_end env) (learning st1)
      in (case fst recorded of
            Inl raised \<Rightarrow> Inl raised
          | Inr entry \<Rightarrow> Inr (error_prefix @ errorMessage),
          st1\<lparr>learning := snd recorded\<rparr>))"

text \<open>
  \<^verbatim>\<open>processMessage\<close> (agent.ts, lines 72 to 148): the result is the text returned, or the
  error with which the call is rejected.
\<close>

definition processMessage ::
  "engine \<Rightarrow> agent_env \<Rightarrow> agent_state handler \<Rightarrow> string \<Rightarrow> agent_state \<Rightarrow>
     (error + string) \<times> agent_state" where
  "processMessage eng env handleToolCalls userMessage st =
     (case begin_message env st of
        (Inl err, st0) \<Rightarrow> (Inl err, st0)
      | (Inr _, st0) \<Rightarrow>
          (case process_body eng env handleToolCalls userMessage st0 of
             (Inr response, st1) \<Rightarrow> (Inr response, st1)
           | (Inl err, st1) \<Rightarrow> catch_error eng env userMessage err st1))"

section \<open>Properties\<close>

subsection \<open>The sort\<close>

lemma set_insert_by: "set (insert_by cmp x ys) = insert x (set ys)"
  by (induction ys) auto

lemma set_sort_by: "set (sort_by cmp xs) = set xs"
  by (induction xs) (auto simp: sort_by_def set_insert_by)

lemma length_insert_by: "length (insert_by cmp x ys) = Suc (length ys)"
  by (induction ys) auto

lemma length_sort_by: "length (sort_by cmp xs) = length xs"
  by (induction xs) (auto simp: sort_by_def length_insert_by)

lemma distinct_insert_by: "distinct (insert_by cmp x ys) = (x \<notin> set ys \<and> distinct ys)"
  by (induction ys) (auto simp: set_insert_by)

lemma distinct_sort_by: "distinct (sort_by cmp xs) = distinct xs"
  by (induction xs) (auto simp: sort_by_def distinct_insert_by set_insert_by set_sort_by[unfolded sort_by_def])

lemma sorted_wrt_insert_by:
  assumes trans: "\<And>a b c. a \<in> A \<Longrightarrow> b \<in> A \<Longrightarrow> c \<in> A \<Longrightarrow> le a b \<Longrightarrow> le b c \<Longrightarrow> le a c"
    and swap: "\<And>a b. a \<in> A \<Longrightarrow> b \<in> A \<Longrightarrow> js_gt (cmp a b) (Fin 0) \<Longrightarrow> le b a"
    and keep: "\<And>a b. a \<in> A \<Longrightarrow> b \<in> A \<Longrightarrow> \<not> js_gt (cmp a b) (Fin 0) \<Longrightarrow> le a b"
    and x: "x \<in> A" and ys: "set ys \<subseteq> A" and sorted: "sorted_wrt le ys"
  shows "sorted_wrt le (insert_by cmp x ys)"
  using ys sorted
proof (induction ys)
  case Nil
  then show ?case by simp
next
  case (Cons y ys)
  then have yA: "y \<in> A" and ysA: "set ys \<subseteq> A" and y_le: "\<forall>z\<in>set ys. le y z"
    and srt: "sorted_wrt le ys" by auto
  show ?case
  proof (cases "js_gt (cmp x y) (Fin 0)")
    case True
    with x yA have "le y x" by (simp add: swap)
    with True y_le Cons.IH [OF ysA srt] show ?thesis
      by (auto simp: set_insert_by)
  next
    case False
    with x yA have xy: "le x y" by (simp add: keep)
    have "le x z" if "z \<in> set ys" for z
      using that trans [OF x yA _ xy] y_le ysA by blast
    with False xy y_le srt show ?thesis by auto
  qed
qed

lemma sorted_wrt_sort_by:
  assumes trans: "\<And>a b c. a \<in> A \<Longrightarrow> b \<in> A \<Longrightarrow> c \<in> A \<Longrightarrow> le a b \<Longrightarrow> le b c \<Longrightarrow> le a c"
    and swap: "\<And>a b. a \<in> A \<Longrightarrow> b \<in> A \<Longrightarrow> js_gt (cmp a b) (Fin 0) \<Longrightarrow> le b a"
    and keep: "\<And>a b. a \<in> A \<Longrightarrow> b \<in> A \<Longrightarrow> \<not> js_gt (cmp a b) (Fin 0) \<Longrightarrow> le a b"
    and xs: "set xs \<subseteq> A"
  shows "sorted_wrt le (sort_by cmp xs)"
  using xs
proof (induction xs)
  case Nil
  then show ?case by (simp add: sort_by_def)
next
  case (Cons x xs)
  then have x: "x \<in> A" and xsA: "set xs \<subseteq> A" by auto
  have sub: "set (sort_by cmp xs) \<subseteq> A" using xsA by (simp add: set_sort_by)
  have "sorted_wrt le (insert_by cmp x (sort_by cmp xs))"
    by (rule sorted_wrt_insert_by [where A = A, OF trans swap keep x sub Cons.IH [OF xsA]])
  then show ?case by (simp add: sort_by_def)
qed

lemma set_slice0: "set (slice0 n xs) \<subseteq> set xs"
  by (auto simp: slice0_def dest: in_set_takeD)

lemma sorted_wrt_slice0: "sorted_wrt R xs \<Longrightarrow> sorted_wrt R (slice0 n xs)"
  by (simp add: slice0_def sorted_wrt_take)

lemma length_slice0: "0 \<le> n \<Longrightarrow> length (slice0 n xs) \<le> nat n"
  by (simp add: slice0_def)

subsection \<open>The task registry\<close>

lemma map_set_Str [simp]: "map_set (Str k) v m = AList.update (Str k) v m"
  by (simp add: map_set_def)


lemma set_update_subset: "set (AList.update k v al) \<subseteq> insert (k, v) (set al)"
  by (induction al) auto

lemma distinct_snd_update:
  "distinct (map snd al) \<Longrightarrow> v \<notin> snd ` set al \<Longrightarrow> distinct (map snd (AList.update k v al))"
proof (induction al)
  case Nil
  then show ?case by simp
next
  case (Cons x al)
  show ?case
  proof (cases "fst x = k")
    case True
    with Cons.prems show ?thesis by (cases x) (auto simp: rev_image_eqI)
  next
    case False
    from Cons.prems have "snd x \<noteq> v" by (auto simp: rev_image_eqI)
    moreover from Cons.prems have "snd x \<notin> snd ` set al" by auto
    ultimately have "snd x \<notin> snd ` set (AList.update k v al)"
      using set_update_subset [of k v al] by (auto simp: rev_image_eqI)
    with False Cons show ?thesis by (cases x) auto
  qed
qed

lemma distinct_keys_update:
  "distinct (filter (\<lambda>k. \<not> is_object k) (map fst al)) \<Longrightarrow>
     distinct (filter (\<lambda>k. \<not> is_object k) (map fst (AList.update k v al)))"
  by (auto simp: update_keys)

text \<open>\<^verbatim>\<open>Map.set\<close> keeps the invariant of the registry's entries.\<close>

lemma map_set_entries:
  assumes "distinct (filter (\<lambda>k. \<not> is_object k) (map fst al))"
    and "distinct (map snd al)" and "v \<notin> snd ` set al"
  shows "distinct (filter (\<lambda>k. \<not> is_object k) (map fst (map_set k v al))) \<and>
         distinct (map snd (map_set k v al)) \<and>
         set (map_set k v al) \<subseteq> insert (k, v) (set al)"
proof (cases "is_object k")
  case True
  with assms show ?thesis by (auto simp: map_set_def)
next
  case False
  with assms show ?thesis
    using set_update_subset [of k v al]
    by (simp add: map_set_def distinct_keys_update distinct_snd_update)
qed

lemma lookup_update:
  "lookup (AList.update k x ps) k' = (if k' = k then x else lookup ps k')"
  by (simp add: lookup_def update_conv')

lemma set_prop_lookup:
  "set_prop v k x = Inr v' \<Longrightarrow>
     lookup (props_of v') k' = (if k' = k then x else lookup (props_of v) k')"
  by (cases v) (auto simp: lookup_update)

lemma field_append_old: "a < length h \<Longrightarrow> field (h @ [v]) a k = field h a k"
  by (simp add: field_def deref_def nth_append)

lemma field_append_new: "field (h @ [v]) (length h) k = lookup (props_of v) k"
  by (simp add: field_def deref_def)

lemma field_update_other: "b \<noteq> a \<Longrightarrow> field (h[a := v]) b k = field h b k"
  by (simp add: field_def deref_def)

lemma field_update_same: "a < length h \<Longrightarrow> field (h[a := v]) a k = lookup (props_of v) k"
  by (simp add: field_def deref_def)

text \<open>What a successful \<^verbatim>\<open>add_to_parent\<close> does.\<close>

lemma add_to_parent_Inr:
  assumes "add_to_parent pid a now s = Inr s'"
  shows "tasks s' = tasks s \<and> length (heap s') = length (heap s) \<and>
         (\<forall>b k. k \<noteq> ''subtasks'' \<and> k \<noteq> ''updatedAt'' \<longrightarrow> field (heap s') b k = field (heap s) b k) \<and>
         (\<forall>pa. map_of (tasks s) (Str pid) = Some pa \<and> pa < length (heap s) \<longrightarrow>
            (\<exists>xs ps. field (heap s') pa ''subtasks'' = Arr (xs @ [Ref a]) ps))"
proof (cases "map_of (tasks s) (Str pid)")
  case None
  with assms show ?thesis by (simp add: add_to_parent_def)
next
  case (Some pa)
  let ?old = "field (heap s) pa ''subtasks''"
  let ?subs = "if truthy ?old then ?old else Arr [] []"
  from assms Some have e0:
    "(case set_prop (deref (heap s) pa) ''subtasks'' ?subs of
        Inl err \<Rightarrow> Inl err
      | Inr parent1 \<Rightarrow>
          (case push_ref ?subs a of
             Inl err \<Rightarrow> Inl err
           | Inr subs' \<Rightarrow>
               (case set_prop parent1 ''subtasks'' subs' of
                  Inl err \<Rightarrow> Inl err
                | Inr parent2 \<Rightarrow>
                    (case set_prop parent2 ''updatedAt'' (DateV (Some now)) of
                       Inl err \<Rightarrow> Inl err
                     | Inr parent3 \<Rightarrow> Inr (s\<lparr>heap := (heap s)[pa := parent3]\<rparr>))))) = Inr s'"
    by (simp add: add_to_parent_def Let_def)
  then obtain parent1 where p1: "set_prop (deref (heap s) pa) ''subtasks'' ?subs = Inr parent1"
    by (cases "set_prop (deref (heap s) pa) ''subtasks'' ?subs") auto
  with e0 obtain subs' where pu: "push_ref ?subs a = Inr subs'"
    by (cases "push_ref ?subs a") auto
  with e0 p1 obtain parent2 where p2: "set_prop parent1 ''subtasks'' subs' = Inr parent2"
    by (cases "set_prop parent1 ''subtasks'' subs'") auto
  with e0 p1 pu obtain parent3 where
    p3: "set_prop parent2 ''updatedAt'' (DateV (Some now)) = Inr parent3"
    by (cases "set_prop parent2 ''updatedAt'' (DateV (Some now))") auto
  with e0 p1 pu p2 have s': "s' = s\<lparr>heap := (heap s)[pa := parent3]\<rparr>"
    by simp
  from pu obtain xs ps where subs': "subs' = Arr (xs @ [Ref a]) ps"
    by (auto simp: push_ref_def split: jsval.splits)
  have l3: "lookup (props_of parent3) k =
      (if k = ''updatedAt'' then DateV (Some now)
       else if k = ''subtasks'' then subs'
       else lookup (props_of (deref (heap s) pa)) k)" for k
    by (simp add: set_prop_lookup [OF p3] set_prop_lookup [OF p2] set_prop_lookup [OF p1])
  have other: "field (heap s') b k = field (heap s) b k"
    if "k \<noteq> ''subtasks'' \<and> k \<noteq> ''updatedAt''" for b k
  proof (cases "b = pa \<and> pa < length (heap s)")
    case True
    with that show ?thesis
      by (simp add: s' field_update_same l3) (simp add: field_def)
  next
    case False
    then show ?thesis
      by (cases "b = pa") (auto simp: s' field_update_other list_update_beyond)
  qed
  have sub: "field (heap s') pa ''subtasks'' = Arr (xs @ [Ref a]) ps" if "pa < length (heap s)"
    using that by (simp add: s' field_update_same l3 subs')
  from other sub Some show ?thesis
    by (auto simp: s')
qed





lemma registry_ok_store:
  assumes ok: "registry_ok s" and k: "lookup (props_of t) ''id'' = k"
  shows "registry_ok (s\<lparr>heap := heap s @ [t], tasks := map_set k (length (heap s)) (tasks s)\<rparr>)"
proof -
  let ?a = "length (heap s)"
  from ok have dk: "distinct (filter (\<lambda>k. \<not> is_object k) (map fst (tasks s)))"
    and ds: "distinct (map snd (tasks s))"
    and inv: "\<And>k b. (k, b) \<in> set (tasks s) \<Longrightarrow> b < length (heap s) \<and> field (heap s) b ''id'' = k"
    by (auto simp: registry_ok_def)
  from inv have fresh: "?a \<notin> snd ` set (tasks s)" by fastforce
  from map_set_entries [OF dk ds fresh, of k]
  have dk': "distinct (filter (\<lambda>k. \<not> is_object k) (map fst (map_set k ?a (tasks s))))"
    and ds': "distinct (map snd (map_set k ?a (tasks s)))"
    and sub: "set (map_set k ?a (tasks s)) \<subseteq> insert (k, ?a) (set (tasks s))"
    by auto
  have "b < Suc ?a \<and> field (heap s @ [t]) b ''id'' = k'"
    if "(k', b) \<in> set (map_set k ?a (tasks s))" for k' b
  proof (cases "(k', b) = (k, ?a)")
    case True
    with k show ?thesis by (simp add: field_append_new)
  next
    case False
    with that sub have "(k', b) \<in> set (tasks s)" by auto
    from inv [OF this] show ?thesis by (simp add: field_append_old)
  qed
  with dk' ds' show ?thesis by (auto simp: registry_ok_def)
qed


lemma import_task_Inr:
  assumes "import_task eng task s = Inr s'"
  shows "\<exists>t. s' = s\<lparr>heap := heap s @ [t],
                     tasks := map_set (lookup (props_of t) ''id'') (length (heap s)) (tasks s)\<rparr>"
proof -
  from assms obtain t i where i: "get_prop t ''id'' = Inr i"
    and s': "s' = s\<lparr>heap := heap s @ [t], tasks := map_set i (length (heap s)) (tasks s)\<rparr>"
    unfolding import_task_def and_then_def by (auto split: sum.splits if_splits)
  from i have "i = lookup (props_of t) ''id''"
    by (cases t) auto
  with s' show ?thesis by blast
qed

lemma registry_ok_import_loop:
  "registry_ok s \<Longrightarrow> registry_ok (snd (import_loop eng ts n s))"
proof (induction ts arbitrary: n s)
  case Nil
  then show ?case by simp
next
  case (Cons t ts)
  show ?case
  proof (cases "import_task eng t s")
    case (Inl err)
    with Cons.prems show ?thesis by simp
  next
    case (Inr s1)
    from import_task_Inr [OF Inr] Cons.prems have "registry_ok s1"
      by (auto intro: registry_ok_store)
    then have "registry_ok (snd (import_loop eng ts (Suc n) s1))" by (rule Cons.IH)
    with Inr show ?thesis by simp
  qed
qed

lemma registry_ok_importTasks:
  assumes "registry_ok s"
  shows "registry_ok (snd (importTasks eng payload s))"
proof -
  have "snd (importTasks eng payload s) = s \<or>
        (\<exists>ts. snd (importTasks eng payload s) = snd (import_loop eng ts 0 s))"
    by (auto simp: importTasks_def split: option.splits sum.splits prod.splits)
      (metis snd_conv)+
  with assms show ?thesis
    by (auto simp: registry_ok_import_loop)
qed

lemma listTasks_limited:
  "listTasks f s =
     (case f_limit f of
        None \<Rightarrow> listTasks (f\<lparr>f_limit := None\<rparr>) s
      | Some n \<Rightarrow> if n = 0 then listTasks (f\<lparr>f_limit := None\<rparr>) s
                  else slice0 n (listTasks (f\<lparr>f_limit := None\<rparr>) s))"
  by (simp add: listTasks_def Let_def split: option.splits)



lemma compare_tasks_typed:
  assumes "rank_of h a = Fin ra" "rank_of h b = Fin rb" "created_of h a = Fin ta" "created_of h b = Fin tb"
  shows "js_gt (compare_tasks h a b) (Fin 0) \<longleftrightarrow> (ra > rb \<or> (ra = rb \<and> tb > ta))"
  using assms by (auto simp: compare_tasks_def Let_def js_sub_def rank_of_def created_of_def)

lemma precedes_typed:
  assumes "rank_of h a = Fin ra" "rank_of h b = Fin rb" "created_of h a = Fin ta" "created_of h b = Fin tb"
  shows "precedes h a b \<longleftrightarrow> (ra < rb \<or> (ra = rb \<and> tb \<le> ta))"
  using assms by (auto simp: precedes_def)

lemma well_typedE:
  assumes "well_typed h a"
  obtains r t where "rank_of h a = Fin r" "created_of h a = Fin t"
  using assms unfolding well_typed_def
  by (cases "rank_of h a"; cases "created_of h a") auto

lemma sorted_compare_tasks:
  assumes "\<forall>a \<in> set xs. well_typed h a"
  shows "sorted_wrt (precedes h) (sort_by (compare_tasks h) xs)"
proof (rule sorted_wrt_sort_by [where A = "{a. well_typed h a}"])
  fix a b c
  assume "a \<in> {a. well_typed h a}" "b \<in> {a. well_typed h a}" "c \<in> {a. well_typed h a}"
    and ab: "precedes h a b" and bc: "precedes h b c"
  then obtain ra ta rb tb rc tc where
    a: "rank_of h a = Fin ra" "created_of h a = Fin ta" and
    b: "rank_of h b = Fin rb" "created_of h b = Fin tb" and
    c: "rank_of h c = Fin rc" "created_of h c = Fin tc"
    by (auto elim!: well_typedE)
  from ab bc show "precedes h a c"
    unfolding precedes_typed [OF a(1) b(1) a(2) b(2)] precedes_typed [OF b(1) c(1) b(2) c(2)]
      precedes_typed [OF a(1) c(1) a(2) c(2)]
    by auto
next
  fix a b
  assume "a \<in> {a. well_typed h a}" "b \<in> {a. well_typed h a}"
  then obtain ra ta rb tb where
    a: "rank_of h a = Fin ra" "created_of h a = Fin ta" and
    b: "rank_of h b = Fin rb" "created_of h b = Fin tb"
    by (auto elim!: well_typedE)
  show "precedes h b a" if "js_gt (compare_tasks h a b) (Fin 0)"
    using that unfolding compare_tasks_typed [OF a(1) b(1) a(2) b(2)]
      precedes_typed [OF b(1) a(1) b(2) a(2)] by auto
  show "precedes h a b" if "\<not> js_gt (compare_tasks h a b) (Fin 0)"
    using that unfolding compare_tasks_typed [OF a(1) b(1) a(2) b(2)]
      precedes_typed [OF a(1) b(1) a(2) b(2)] by auto
next
  from assms show "set xs \<subseteq> {a. well_typed h a}" by auto
qed

lemma listTasks_unlimited:
  "f_limit f = None \<Longrightarrow>
     listTasks f s = sort_by (compare_tasks (heap s)) (filter (selected f (heap s)) (map snd (tasks s)))"
proof -
  have "filter (selected f (heap s)) xs =
        filter (\<lambda>t. priority_matches (f_priority f) (field (heap s) t ''priority''))
          (filter (\<lambda>t. category_matches (f_category f) (field (heap s) t ''category''))
            (filter (\<lambda>t. status_matches (f_status f) (field (heap s) t ''status''))
              (filter (\<lambda>t. \<not> truthy (field (heap s) t ''parentTaskId'')) xs)))" for xs
    by (induction xs) (auto simp: selected_def top_level_def)
  then show "f_limit f = None \<Longrightarrow> ?thesis"
    by (simp add: listTasks_def Let_def)
qed

subsection \<open>Example registries\<close>

definition example_task :: "string \<Rightarrow> priority option \<Rightarrow> string option \<Rightarrow> task_params" where
  "example_task t pr par =
     \<lparr>title = t, description = ''text'', priority = pr, category = None,
      parentTaskId = par, dependencies = None\<rparr>"

definition example_obj ::
  "string \<Rightarrow> string \<Rightarrow> string \<Rightarrow> int \<Rightarrow> int \<Rightarrow> jsval \<Rightarrow> (string \<times> jsval) list \<Rightarrow> jsval" where
  "example_obj i t pr created updated par extra =
     Obj ([(''id'', Str i), (''title'', Str t), (''description'', Str ''text''),
           (''status'', Str ''pending''), (''priority'', Str pr),
           (''category'', Str ''development''), (''createdAt'', DateV (Some created)),
           (''updatedAt'', DateV (Some updated)), (''parentTaskId'', par),
           (''dependencies'', Undefined)] @ extra)"

lemma new_task_example:
  "new_task (example_task t pr par) i now =
     example_obj i t (priority_str (case pr of None \<Rightarrow> Medium | Some x \<Rightarrow> x)) now now (opt_str par) []"
  by (simp add: new_task_def example_task_def example_obj_def)

lemma lookup_example_obj:
  "lookup (props_of (example_obj i t pr created updated par extra)) ''id'' = Str i"
  "lookup (props_of (example_obj i t pr created updated par extra)) ''status'' = Str ''pending''"
  "lookup (props_of (example_obj i t pr created updated par extra)) ''priority'' = Str pr"
  "lookup (props_of (example_obj i t pr created updated par extra)) ''category'' = Str ''development''"
  "lookup (props_of (example_obj i t pr created updated par extra)) ''createdAt'' = DateV (Some created)"
  "lookup (props_of (example_obj i t pr created updated par extra)) ''parentTaskId'' = par"
  "lookup (props_of (example_obj i t pr created updated par extra)) ''subtasks'' = lookup extra ''subtasks''"
  by (simp_all add: example_obj_def lookup_def)

lemma lookup_simps:
  "lookup [] k = Undefined"
  "lookup ((k', v) # ps) k = (if k = k' then v else lookup ps k)"
  by (simp_all add: lookup_def)

lemma set_prop_example_obj:
  "set_prop (example_obj i t pr created updated par []) ''subtasks'' v =
     Inr (example_obj i t pr created updated par [(''subtasks'', v)])"
  "set_prop (example_obj i t pr created updated par [(''subtasks'', w)]) ''subtasks'' v =
     Inr (example_obj i t pr created updated par [(''subtasks'', v)])"
  "set_prop (example_obj i t pr created updated par extra) ''updatedAt'' (DateV (Some u)) =
     Inr (example_obj i t pr created u par extra)"
  by (simp_all add: example_obj_def)

text \<open>A parent and its subtask.\<close>

definition state_parent :: task_state where
  "state_parent =
     \<lparr>heap = [example_obj ''task_p'' ''parent'' ''medium'' 10 10 Undefined []],
      tasks = [(Str ''task_p'', 0)]\<rparr>"

definition state_family :: task_state where
  "state_family =
     \<lparr>heap = [example_obj ''task_p'' ''parent'' ''medium'' 10 20 Undefined
                [(''subtasks'', Arr [Ref 1] [])],
              example_obj ''task_c'' ''child'' ''medium'' 20 20 (Str ''task_p'') []],
      tasks = [(Str ''task_p'', 0), (Str ''task_c'', 1)]\<rparr>"


lemma create_child:
  "createTask (example_task ''child'' None (Some ''task_p'')) ''task_c'' 20 state_parent =
     (Inr (Ref 1), state_family)"
proof -
  let ?s1 = "\<lparr>heap = [example_obj ''task_p'' ''parent'' ''medium'' 10 10 Undefined [],
                      example_obj ''task_c'' ''child'' ''medium'' 20 20 (Str ''task_p'') []],
               tasks = [(Str ''task_p'', 0), (Str ''task_c'', 1)]\<rparr>"
  have "add_to_parent ''task_p'' 1 20 ?s1 = Inr state_family"
    by (simp add: add_to_parent_def Let_def field_def deref_def lookup_example_obj lookup_simps
        set_prop_example_obj push_ref_def state_family_def)
  then show ?thesis
    by (simp add: createTask_def Let_def new_task_example state_parent_def opt_str_def)
      (simp add: example_task_def)
qed

lemma fields_family:
  "field (heap state_family) 0 ''parentTaskId'' = Undefined"
  "field (heap state_family) (Suc 0) ''parentTaskId'' = Str ''task_p''"
  "field (heap state_family) 0 ''status'' = Str ''pending''"
  "field (heap state_family) (Suc 0) ''status'' = Str ''pending''"
  "field (heap state_family) 0 ''subtasks'' = Arr [Ref 1] []"
  "field (heap state_family) 0 ''id'' = Str ''task_p''"
  "field (heap state_family) (Suc 0) ''id'' = Str ''task_c''"
  by (simp_all add: state_family_def field_def deref_def lookup_example_obj lookup_simps)

definition pending_only :: task_filters where
  "pending_only = no_filters\<lparr>f_status := Some (Status Pending)\<rparr>"

lemma list_family:
  "listTasks no_filters state_family = [0]"
  "listTasks pending_only state_family = [0]"
proof -
  have t: "tasks state_family = [(Str ''task_p'', 0), (Str ''task_c'', Suc 0)]"
    by (simp add: state_family_def)
  show "listTasks no_filters state_family = [0]"
    by (simp add: listTasks_def Let_def t fields_family no_filters_def sort_by_def
        status_matches_def category_matches_def priority_matches_def)
  show "listTasks pending_only state_family = [0]"
    by (simp add: listTasks_def Let_def t fields_family no_filters_def sort_by_def
        pending_only_def status_matches_def category_matches_def priority_matches_def)
qed

lemma registry_ok_parent: "registry_ok state_parent"
  by (simp add: registry_ok_def state_parent_def field_def deref_def lookup_example_obj)

lemma list_parent: "listTasks no_filters state_parent = [0]"
  by (simp add: listTasks_def Let_def state_parent_def field_def deref_def lookup_example_obj
      no_filters_def sort_by_def status_matches_def category_matches_def priority_matches_def)

definition state_orphan :: task_state where
  "state_orphan =
     \<lparr>heap = [example_obj ''task_o'' ''orphan'' ''medium'' 5 5 (Str ''task_missing'') []],
      tasks = [(Str ''task_o'', 0)]\<rparr>"

lemma create_orphan:
  "createTask (example_task ''orphan'' None (Some ''task_missing'')) ''task_o'' 5 empty_tasks =
     (Inr (Ref 0), state_orphan)"
  by (simp add: createTask_def Let_def new_task_example empty_tasks_def state_orphan_def
      opt_str_def) (simp add: example_task_def add_to_parent_def)

text \<open>Three tasks without a parent.\<close>

definition state_three :: task_state where
  "state_three =
     \<lparr>heap = [example_obj ''task_a'' ''first'' ''low'' 10 10 Undefined [],
              example_obj ''task_b'' ''second'' ''critical'' 20 20 Undefined [],
              example_obj ''task_d'' ''third'' ''critical'' 30 30 Undefined []],
      tasks = [(Str ''task_a'', 0), (Str ''task_b'', 1), (Str ''task_d'', 2)]\<rparr>"

lemma create_three:
  "state_three =
     snd (createTask (example_task ''third'' (Some Critical) None) ''task_d'' 30
       (snd (createTask (example_task ''second'' (Some Critical) None) ''task_b'' 20
         (snd (createTask (example_task ''first'' (Some Low) None) ''task_a'' 10 empty_tasks)))))"
  by (simp add: createTask_def Let_def new_task_example empty_tasks_def state_three_def
      opt_str_def) (simp add: example_task_def)

definition critical_only :: task_filters where
  "critical_only = no_filters\<lparr>f_priority := Some Critical\<rparr>"

lemma fields_three:
  "field (heap state_three) 0 ''parentTaskId'' = Undefined"
  "field (heap state_three) (Suc 0) ''parentTaskId'' = Undefined"
  "field (heap state_three) 2 ''parentTaskId'' = Undefined"
  "field (heap state_three) 0 ''priority'' = Str ''low''"
  "field (heap state_three) (Suc 0) ''priority'' = Str ''critical''"
  "field (heap state_three) 2 ''priority'' = Str ''critical''"
  "field (heap state_three) 0 ''createdAt'' = DateV (Some 10)"
  "field (heap state_three) (Suc 0) ''createdAt'' = DateV (Some 20)"
  "field (heap state_three) 2 ''createdAt'' = DateV (Some 30)"
  "field (heap state_three) 0 ''id'' = Str ''task_a''"
  "field (heap state_three) (Suc 0) ''id'' = Str ''task_b''"
  "field (heap state_three) 2 ''id'' = Str ''task_d''"
  by (simp_all add: state_three_def field_def deref_def lookup_example_obj)

lemma tasks_three:
  "tasks state_three = [(Str ''task_a'', 0), (Str ''task_b'', Suc 0), (Str ''task_d'', 2)]"
  by (simp add: state_three_def)

lemma registry_ok_three: "registry_ok state_three"
  by (simp add: registry_ok_def tasks_three fields_three) (simp add: state_three_def)

lemma compare_three:
  "compare_tasks (heap state_three) (Suc 0) 2 = Fin 10"
  "compare_tasks (heap state_three) 0 2 = Fin 3"
  "compare_tasks (heap state_three) 0 (Suc 0) = Fin 3"
  by (simp_all add: compare_tasks_def Let_def fields_three priority_rank_def getTime_def js_sub_def)

lemma list_three:
  "listTasks critical_only state_three = [2, 1]"
  "listTasks no_filters state_three = [2, 1, 0]"
  by (simp_all add: listTasks_def Let_def tasks_three fields_three critical_only_def
      no_filters_def sort_by_def status_matches_def category_matches_def priority_matches_def
      compare_three)

lemma typed_three:
  "\<forall>a \<in> snd ` set (tasks state_three).
     top_level (heap state_three) a \<longrightarrow> well_typed (heap state_three) a"
  by (simp add: tasks_three well_typed_def rank_of_def created_of_def fields_three
      priority_rank_def getTime_def)

subsection \<open>Creating and listing tasks\<close>




text \<open>
  C5, as the specification states it: a status filter returns exactly the stored tasks
  with that status. The subtask of the example registry is stored with the status
  \<open>pending\<close>, and the list of the pending tasks does not hold it.
\<close>

theorem listTasks_subset_counterexample:
  "listTasks pending_only state_family = [0] \<and>
   (Str ''task_c'', 1) \<in> set (tasks state_family) \<and>
   field (heap state_family) 1 ''status'' = Str (status_str Pending) \<and>
   (1::nat) \<notin> set (listTasks pending_only state_family)"
  by (simp add: list_family fields_family) (simp add: state_family_def)

text \<open>
  C5, amended. In a registry that has the invariant and whose tasks without a parent are
  well typed, \<^verbatim>\<open>listTasks\<close> without a limit returns, each once, exactly the stored tasks
  that have no \<open>parentTaskId\<close> and whose status, category and priority equal the filters
  given (the status filter \<open>all\<close> selects every status); with a limit \<open>n\<close> it returns the
  first \<open>n\<close> of them (all of them for the limit 0, all but the last \<open>- n\<close> for a negative
  one). The result is ordered by priority rank, critical before high before medium before
  low, and within a rank by descending creation time.
\<close>

theorem listTasks_filtered_sorted:
  assumes ok: "registry_ok s"
    and typed: "\<forall>a \<in> snd ` set (tasks s). top_level (heap s) a \<longrightarrow> well_typed (heap s) a"
  shows "(f_limit f = None \<longrightarrow>
            set (listTasks f s) = {a \<in> snd ` set (tasks s). selected f (heap s) a} \<and>
            distinct (listTasks f s)) \<and>
         (\<forall>n. f_limit f = Some n \<longrightarrow>
            listTasks f s = (if n = 0 then listTasks (f\<lparr>f_limit := None\<rparr>) s
                             else slice0 n (listTasks (f\<lparr>f_limit := None\<rparr>) s))) \<and>
         sorted_wrt (precedes (heap s)) (listTasks f s)"
proof -
  let ?h = "heap s"
  let ?sel = "\<lambda>g. filter (selected g ?h) (map snd (tasks s))"
  let ?f0 = "f\<lparr>f_limit := None\<rparr>"
  have un: "listTasks g s = sort_by (compare_tasks ?h) (?sel g)" if "f_limit g = None" for g
    using that by (rule listTasks_unlimited)
  from ok have ds: "distinct (map snd (tasks s))" by (simp add: registry_ok_def)
  have 1: "set (listTasks f s) = {a \<in> snd ` set (tasks s). selected f ?h a} \<and> distinct (listTasks f s)"
    if "f_limit f = None"
    using ds by (auto simp: un [OF that] set_sort_by distinct_sort_by)
  have 2: "listTasks f s = (if n = 0 then listTasks ?f0 s else slice0 n (listTasks ?f0 s))"
    if "f_limit f = Some n" for n
    using that by (subst listTasks_limited) simp
  have wt: "\<forall>a \<in> set (?sel g). well_typed ?h a" for g
    using typed by (auto simp: selected_def)
  have s0: "sorted_wrt (precedes ?h) (listTasks ?f0 s)"
    by (simp add: un sorted_compare_tasks [OF wt])
  have 3: "sorted_wrt (precedes ?h) (listTasks f s)"
    by (subst listTasks_limited) (auto simp: s0 sorted_wrt_slice0 split: option.splits)
  from 1 2 3 show ?thesis by blast
qed

theorem listTasks_filtered_sorted_witness:
  "registry_ok state_three \<and>
   listTasks critical_only state_three = [2, 1] \<and>
   {a \<in> snd ` set (tasks state_three). selected critical_only (heap state_three) a} = {1, 2} \<and>
   precedes (heap state_three) 2 1 \<and>
   listTasks (critical_only\<lparr>f_limit := Some 1\<rparr>) state_three = [2]"
proof -
  note gen = listTasks_filtered_sorted [OF registry_ok_three typed_three]
  have lim: "f_limit critical_only = None"
    "f_limit (critical_only\<lparr>f_limit := Some 1\<rparr>) = Some 1"
    "(critical_only\<lparr>f_limit := Some 1\<rparr>)\<lparr>f_limit := None\<rparr> = critical_only"
    by (simp_all add: critical_only_def no_filters_def)
  from gen [of critical_only] lim have "set [2, 1] = {a \<in> snd ` set (tasks state_three).
      selected critical_only (heap state_three) a}" and "precedes (heap state_three) 2 1"
    by (simp_all add: list_three)
  moreover from gen [of "critical_only\<lparr>f_limit := Some 1\<rparr>"] lim
  have "listTasks (critical_only\<lparr>f_limit := Some 1\<rparr>) state_three = [2]"
    by (simp add: list_three slice0_def)
  ultimately show ?thesis
    using registry_ok_three list_three by auto
qed

text \<open>
  C9, as the specification states it: every task created with a parent identifier is also
  nested in its parent's \<open>subtasks\<close>. In the example the identifier names no task of the
  registry: the new task is stored, and no object of the store has a \<open>subtasks\<close> property.
\<close>

theorem createTask_parent_counterexample:
  "createTask (example_task ''orphan'' None (Some ''task_missing'')) ''task_o'' 5 empty_tasks =
     (Inr (Ref 0), state_orphan) \<and>
   map_of (tasks state_orphan) (Str ''task_o'') = Some 0 \<and>
   map_of (tasks state_orphan) (Str ''task_missing'') = None \<and>
   list_all (\<lambda>obj. lookup (props_of obj) ''subtasks'' = Undefined) (heap state_orphan)"
  by (simp add: create_orphan) (simp add: state_orphan_def lookup_example_obj lookup_simps)

text \<open>
  C9, amended. For every task created with a parent identifier that is not empty and names
  a task of the registry, in a registry that has the invariant, when \<^verbatim>\<open>createTask\<close>
  returns, the task is stored as an entry of the registry under its own identifier, and the
  \<open>subtasks\<close> array of the parent holds a reference to the same object.
\<close>

theorem createTask_nested_in_parent:
  assumes ok: "registry_ok s"
    and pid: "parentTaskId p = Some pid" "pid \<noteq> []"
    and parent: "Str pid \<in> fst ` set (tasks s)"
    and res: "createTask p newId now s = (Inr t, s')"
  shows "\<exists>a pa xs ps. t = Ref a \<and> map_of (tasks s') (Str newId) = Some a \<and>
           map_of (tasks s') (Str pid) = Some pa \<and>
           field (heap s') pa ''subtasks'' = Arr xs ps \<and> Ref a \<in> set xs"
proof -
  let ?a = "length (heap s)"
  let ?s1 = "s\<lparr>heap := heap s @ [new_task p newId now],
                tasks := AList.update (Str newId) ?a (tasks s)\<rparr>"
  from res pid obtain s2 where add: "add_to_parent pid ?a now ?s1 = Inr s2"
    and t: "t = Ref ?a" and s': "s' = s2"
    by (auto simp: createTask_def Let_def split: sum.splits)
  from add_to_parent_Inr [OF add] s' have tasks': "tasks s' = AList.update (Str newId) ?a (tasks s)"
    and sub: "\<And>pa. map_of (tasks ?s1) (Str pid) = Some pa \<Longrightarrow> pa < length (heap ?s1) \<Longrightarrow>
            \<exists>xs ps. field (heap s') pa ''subtasks'' = Arr (xs @ [Ref ?a]) ps"
    by auto
  from parent have "map_of (tasks ?s1) (Str pid) \<noteq> None"
    by (simp add: map_of_eq_None_iff dom_update)
  then obtain pa where pa: "map_of (tasks ?s1) (Str pid) = Some pa" by auto
  have "pa < length (heap ?s1)"
  proof (cases "pid = newId")
    case True
    with pa show ?thesis by (simp add: update_conv')
  next
    case False
    with pa have "(Str pid, pa) \<in> set (tasks s)"
      by (auto simp: update_conv' dest: map_of_SomeD)
    with ok show ?thesis by (auto simp: registry_ok_def)
  qed
  from sub [OF pa this] obtain xs ps where "field (heap s') pa ''subtasks'' = Arr (xs @ [Ref ?a]) ps"
    by blast
  moreover have "map_of (tasks s') (Str newId) = Some ?a"
    by (simp add: tasks' update_conv')
  moreover from pa have "map_of (tasks s') (Str pid) = Some pa"
    by (simp add: tasks')
  ultimately show ?thesis using t by auto
qed

theorem createTask_nested_in_parent_witness:
  "registry_ok state_parent \<and>
   Str ''task_p'' \<in> fst ` set (tasks state_parent) \<and>
   createTask (example_task ''child'' None (Some ''task_p'')) ''task_c'' 20 state_parent =
     (Inr (Ref 1), state_family) \<and>
   map_of (tasks state_family) (Str ''task_c'') = Some 1 \<and>
   map_of (tasks state_family) (Str ''task_p'') = Some 0 \<and>
   field (heap state_family) 0 ''subtasks'' = Arr [Ref 1] []"
proof -
  have p: "parentTaskId (example_task ''child'' None (Some ''task_p'')) = Some ''task_p''"
    by (simp add: example_task_def)
  have ne: "''task_p'' \<noteq> []" by simp
  have par: "Str ''task_p'' \<in> fst ` set (tasks state_parent)"
    by (simp add: state_parent_def)
  from createTask_nested_in_parent [OF registry_ok_parent p ne par create_child]
  show ?thesis
    by (simp add: registry_ok_parent par create_child fields_family) (simp add: state_family_def)
qed

subsection \<open>Similar learnings\<close>

lemma scored_Inr:
  "scored eng words es = Inr items \<Longrightarrow>
     items = map (\<lambda>e. (e, case get_prop e ''pattern'' of Inr (Str p) \<Rightarrow> score_of eng words p | _ \<Rightarrow> 0)) es"
proof (induction es arbitrary: items)
  case Nil
  then show ?case by simp
next
  case (Cons e es)
  then show ?case
    by (auto split: sum.splits jsval.splits)
qed

lemma score_pos_word:
  "0 < score_of eng words p \<Longrightarrow> list_ex (str_includes (toLowerCase eng p)) words"
  unfolding score_of_def list_ex_iff
  by (metis filter_False length_greater_0_conv)

lemma sorted_by_score_desc: "sorted_wrt (\<lambda>a b. snd b \<le> snd a) (sort_by by_score_desc xs)"
proof (rule sorted_wrt_sort_by [where A = UNIV])
  show "snd b \<le> snd a" if "js_gt (by_score_desc b a) (Fin 0)" for a b :: "jsval \<times> nat"
    using that by (simp add: by_score_desc_def js_sub_def)
  show "snd b \<le> snd a" if "\<not> js_gt (by_score_desc a b) (Fin 0)" for a b :: "jsval \<times> nat"
    using that by (simp add: by_score_desc_def js_sub_def)
qed auto

text \<open>Two entries, recorded one after the other into the initial state, used as examples.\<close>

definition example_params :: "string \<Rightarrow> outcome \<Rightarrow> learning_params" where
  "example_params p oc =
     \<lparr>taskId = ''task-1'', pattern = p, outcome = oc, feedback = None, improvement = None\<rparr>"

definition entry_concat :: jsval where
  "entry_concat = new_entry (example_params ''concatenate strings'' Success) ''learn_a_1'' 10"

definition entry_sort :: jsval where
  "entry_sort = new_entry (example_params ''sort strings fast'' Partial) ''learn_b_2'' 20"

definition one_learning :: learning_state where
  "one_learning =
     snd (recordLearning sample_engine (example_params ''concatenate strings'' Success) ''learn_a_1'' 10
            initial_learning_state)"

definition two_learnings :: learning_state where
  "two_learnings =
     snd (recordLearning sample_engine (example_params ''sort strings fast'' Partial) ''learn_b_2'' 20
            one_learning)"

lemma learnings_recordLearning:
  "learnings (snd (recordLearning eng p newId now s)) =
     AList.update (Str newId) (new_entry p newId now) (learnings s)"
  by (simp add: recordLearning_def Let_def)

lemma metrics_recordLearning:
  "metrics (snd (recordLearning eng p newId now s)) =
     snd (update_metrics_for eng (outcome p) now (metrics s))"
  by (simp add: recordLearning_def Let_def)

lemma learnings_one: "learnings one_learning = [(Str ''learn_a_1'', entry_concat)]"
  by (simp add: one_learning_def learnings_recordLearning initial_learning_state_def
      entry_concat_def)

lemma learnings_two:
  "learnings two_learnings = [(Str ''learn_a_1'', entry_concat), (Str ''learn_b_2'', entry_sort)]"
  by (simp add: two_learnings_def learnings_recordLearning learnings_one entry_sort_def)

lemma pattern_concat: "get_prop entry_concat ''pattern'' = Inr (Str ''concatenate strings'')"
  by (simp add: entry_concat_def new_entry_def example_params_def lookup_def)

lemma pattern_sort: "get_prop entry_sort ''pattern'' = Inr (Str ''sort strings fast'')"
  by (simp add: entry_sort_def new_entry_def example_params_def lookup_def)

lemma lower_cat: "toLowerCase sample_engine ''cat'' = ''cat''"
  by (simp add: sample_engine_def ascii_lower_def ascii_lower_char_def)

lemma lower_strings_cat: "toLowerCase sample_engine ''strings cat'' = ''strings cat''"
  by (simp add: sample_engine_def ascii_lower_def ascii_lower_char_def)

lemma lower_concat: "toLowerCase sample_engine ''concatenate strings'' = ''concatenate strings''"
  by (simp add: sample_engine_def ascii_lower_def ascii_lower_char_def)

lemma lower_sort: "toLowerCase sample_engine ''sort strings fast'' = ''sort strings fast''"
  by (simp add: sample_engine_def ascii_lower_def ascii_lower_char_def)

lemma split_cat: "splitWhiteSpace sample_engine ''cat'' = [''cat'']"
  by (simp add: sample_engine_def ascii_split.simps ascii_space_def Let_def)

lemma split_strings_cat: "splitWhiteSpace sample_engine ''strings cat'' = [''strings'', ''cat'']"
  by (simp add: sample_engine_def ascii_split.simps ascii_space_def Let_def)

lemma split_concat: "splitWhiteSpace sample_engine ''concatenate strings'' = [''concatenate'', ''strings'']"
  by (simp add: sample_engine_def ascii_split.simps ascii_space_def Let_def)

lemma find_cat: "findSimilarLearnings sample_engine ''cat'' 5 one_learning = Inr [entry_concat]"
  by (simp add: findSimilarLearnings_def learnings_one pattern_concat lower_cat split_cat
      lower_concat score_of_def sort_by_def slice0_def)

lemma find_strings_cat:
  "findSimilarLearnings sample_engine ''strings cat'' 1 two_learnings = Inr [entry_concat]"
  by (simp add: findSimilarLearnings_def learnings_two pattern_concat pattern_sort
      lower_strings_cat split_strings_cat lower_concat lower_sort score_of_def sort_by_def
      slice0_def by_score_desc_def js_sub_def)

text \<open>
  C7, as the specification states it: the entries returned share a whole word with the
  query. The code tests substring containment instead: the query \<open>cat\<close> returns the entry
  with the pattern \<open>concatenate strings\<close>, which has no word in common with it.
\<close>

theorem findSimilarLearnings_whole_word_counterexample:
  "findSimilarLearnings sample_engine ''cat'' 5 one_learning = Inr [entry_concat] \<and>
   get_prop entry_concat ''pattern'' = Inr (Str ''concatenate strings'') \<and>
   \<not> shares_word sample_engine ''cat'' ''concatenate strings''"
  by (simp add: find_cat pattern_concat shares_word_def lower_cat lower_concat split_cat
      split_concat)

text \<open>
  C7, amended. When \<^verbatim>\<open>findSimilarLearnings\<close> returns, every entry it returns is an entry
  of the registry whose lowercased pattern contains, as a substring, one of the pieces
  into which white space splits the lowercased query; the entries are in descending order
  of their match count (the number of such pieces that the pattern contains); and for a
  limit that is not negative there are at most \<open>limit\<close> of them.
\<close>

theorem findSimilarLearnings_lexical:
  assumes "findSimilarLearnings eng query limit s = Inr res"
  shows "set res \<subseteq> snd ` set (learnings s) \<and>
         (\<forall>e \<in> set res. contains_query_word eng query e) \<and>
         sorted_wrt (\<lambda>a b. match_count eng query b \<le> match_count eng query a) res \<and>
         (0 \<le> limit \<longrightarrow> length res \<le> nat limit)"
proof -
  define words where "words = splitWhiteSpace eng (toLowerCase eng query)"
  define mc where "mc = (\<lambda>e. case get_prop e ''pattern'' of Inr (Str p) \<Rightarrow> score_of eng words p | _ \<Rightarrow> 0)"
  define es where "es = map snd (learnings s)"
  from assms obtain items where items: "scored eng words es = Inr items"
    and res: "res = map fst (slice0 limit (sort_by by_score_desc (filter (\<lambda>item. snd item > 0) items)))"
    by (auto simp: findSimilarLearnings_def Let_def words_def es_def split: sum.splits)
  have items_eq: "items = map (\<lambda>e. (e, mc e)) es"
    using scored_Inr [OF items] by (simp add: mc_def)
  define sel where "sel = slice0 limit (sort_by by_score_desc (filter (\<lambda>item. snd item > 0) items))"
  have res_sel: "res = map fst sel"
    by (simp add: res sel_def)
  have "set sel \<subseteq> set (sort_by by_score_desc (filter (\<lambda>item. snd item > 0) items))"
    unfolding sel_def by (rule set_slice0)
  then have "set sel \<subseteq> set (filter (\<lambda>item. snd item > 0) items)"
    by (simp only: set_sort_by)
  then have sel_item: "fst x \<in> set es \<and> snd x = mc (fst x) \<and> 0 < mc (fst x)" if "x \<in> set sel" for x
    using that by (auto simp: items_eq)
  have mc_eq: "mc = match_count eng query"
    unfolding mc_def match_count_def words_def ..
  have 1: "set res \<subseteq> snd ` set (learnings s)"
    using sel_item by (auto simp: res_sel es_def)
  have 2: "\<forall>e \<in> set res. contains_query_word eng query e"
  proof
    fix e assume "e \<in> set res"
    with sel_item have pos: "0 < mc e" by (auto simp: res_sel)
    then obtain p where p: "get_prop e ''pattern'' = Inr (Str p)" and sc: "0 < score_of eng words p"
      by (auto simp: mc_def split: sum.splits jsval.splits)
    from score_pos_word [OF sc] p show "contains_query_word eng query e"
      by (simp add: contains_query_word_def words_def)
  qed
  have "sorted_wrt (\<lambda>a b. snd b \<le> snd a) sel"
    unfolding sel_def by (intro sorted_wrt_slice0 sorted_by_score_desc)
  then have "sorted_wrt (\<lambda>a b. mc (fst b) \<le> mc (fst a)) sel"
  proof (rule sorted_wrt_mono_rel [rotated])
    fix x y assume "x \<in> set sel" "y \<in> set sel" "snd y \<le> snd x"
    with sel_item [of x] sel_item [of y] show "mc (fst y) \<le> mc (fst x)" by simp
  qed
  then have 3: "sorted_wrt (\<lambda>a b. match_count eng query b \<le> match_count eng query a) res"
    unfolding res_sel mc_eq by (simp add: sorted_wrt_map)
  have 4: "0 \<le> limit \<longrightarrow> length res \<le> nat limit"
    by (simp add: res_sel sel_def length_slice0)
  show ?thesis
    using 1 2 3 4 by (intro conjI)
qed

theorem findSimilarLearnings_lexical_witness:
  "findSimilarLearnings sample_engine ''strings cat'' 1 two_learnings = Inr [entry_concat] \<and>
   entry_concat \<in> snd ` set (learnings two_learnings) \<and>
   contains_query_word sample_engine ''strings cat'' entry_concat \<and>
   length [entry_concat] \<le> nat 1"
  using findSimilarLearnings_lexical [OF find_strings_cat] find_strings_cat
  by simp

subsection \<open>Export and import\<close>

text \<open>
  An element that is a string ends the loop of an import: its date cannot be written. A
  string that is not empty has a first code point.
\<close>

lemma new_Date_Undefined: "new_Date eng Undefined = Inr (DateV None)"
  by (simp add: new_Date_def and_then_def time_clip_def)

lemma new_Date_Str: "new_Date eng (Str x) = Inr (DateV (parseDate eng (Str x)))"
  by (simp add: new_Date_def and_then_def)

lemma import_task_Str: "import_task eng (Str x) s = Inl TypeError"
  by (simp add: import_task_def and_then_def new_Date_Undefined lookup_def)

lemma import_entry_Str: "import_entry eng (Str x) ls = Inl TypeError"
  by (simp add: import_entry_def and_then_def new_Date_Undefined lookup_def)

lemma code_points_Nil: "code_points str = [] \<longleftrightarrow> str = []"
  by (cases str) simp_all

lemma import_loop_strings:
  "import_loop eng (map Str xs) n s = (if xs = [] then (Inr n, s) else (Inl TypeError, s))"
  by (cases xs) (simp_all add: import_task_Str)

lemma import_entries_strings:
  "import_entries eng (map Str xs) n ls = (if xs = [] then (Inr n, ls) else (Inl TypeError, ls))"
  by (cases xs) (simp_all add: import_entry_Str)

lemma importTasks_not_array:
  assumes "\<not> is_task_array payload"
  shows "importTasks eng payload s = (0, s)"
proof (cases payload)
  case None
  then show ?thesis by (simp add: importTasks_def)
next
  case (Some doc)
  show ?thesis
  proof (cases doc)
    case (JStr str)
    with Some show ?thesis
      by (simp add: importTasks_def import_loop_strings)
  next
    case (JArr js)
    with Some assms show ?thesis by (simp add: is_task_array_def)
  qed (use Some in \<open>simp_all add: importTasks_def\<close>)
qed

text \<open>
  The loop of \<^verbatim>\<open>importLearnings\<close> over a truthy value that is not an array raises before
  it has stored anything.
\<close>

lemma iterate_not_array:
  assumes "\<nexists>xs ps. v = Arr xs ps" and "truthy v"
  shows "(case iterate v of
            Inl err \<Rightarrow> (Inl err, ls)
          | Inr entries \<Rightarrow> import_entries eng entries 0 ls) = (Inl TypeError, ls)"
  using assms by (cases v) (simp_all add: import_entries_strings code_points_Nil)

lemma importLearnings_document:
  assumes "\<not> is_learning_envelope (Some doc)"
  shows "importLearnings eng (Some doc) now ls =
           (0, if assigns_metrics (Some doc)
               then ls\<lparr>metrics := assign_metrics eng (metrics_of (Some doc)) now (metrics ls)\<rparr>
               else ls)"
proof (cases "get_prop (of_json doc) ''learnings''")
  case (Inl err)
  then show ?thesis
    by (simp add: importLearnings_def assigns_metrics_def)
next
  case (Inr v)
  have na: "\<nexists>xs ps. v = Arr xs ps"
  proof (cases doc)
    case (JObj ms)
    with assms Inr show ?thesis
      by (auto simp: is_learning_envelope_def)
  qed (use Inr in \<open>auto simp: lookup_def\<close>)
  show ?thesis
  proof (cases "truthy v")
    case True
    with Inr iterate_not_array [OF na True, of ls eng] show ?thesis
      by (simp add: importLearnings_def assigns_metrics_def)
  next
    case False
    with Inr show ?thesis
      by (simp add: importLearnings_def assigns_metrics_def metrics_of_def Let_def)
  qed
qed

text \<open>The documents of the export of the family, and what the import of it stores.\<close>

definition child_doc :: "engine \<Rightarrow> json" where
  "child_doc eng =
     JObj [(''id'', JStr ''task_c''), (''title'', JStr ''child''), (''description'', JStr ''text''),
           (''status'', JStr ''pending''), (''priority'', JStr ''medium''),
           (''category'', JStr ''development''),
           (''createdAt'', JStr (toISOString eng 20)),
           (''updatedAt'', JStr (toISOString eng 20)),
           (''parentTaskId'', JStr ''task_p'')]"

definition family_doc :: "engine \<Rightarrow> json" where
  "family_doc eng =
     JArr [JObj [(''id'', JStr ''task_p''), (''title'', JStr ''parent''),
                 (''description'', JStr ''text''), (''status'', JStr ''pending''),
                 (''priority'', JStr ''medium''), (''category'', JStr ''development''),
                 (''createdAt'', JStr (toISOString eng 10)),
                 (''updatedAt'', JStr (toISOString eng 20)),
                 (''subtasks'', JArr [child_doc eng])],
           child_doc eng]"

definition child_copy :: "engine \<Rightarrow> jsval \<Rightarrow> jsval" where
  "child_copy eng created =
     Obj [(''id'', Str ''task_c''), (''title'', Str ''child''), (''description'', Str ''text''),
          (''status'', Str ''pending''), (''priority'', Str ''medium''),
          (''category'', Str ''development''),
          (''createdAt'', created),
          (''updatedAt'', created),
          (''parentTaskId'', Str ''task_p'')]"

definition family_reimported :: "engine \<Rightarrow> task_state" where
  "family_reimported eng =
     \<lparr>heap = heap state_family @
        [Obj [(''id'', Str ''task_p''), (''title'', Str ''parent''),
              (''description'', Str ''text''), (''status'', Str ''pending''),
              (''priority'', Str ''medium''), (''category'', Str ''development''),
              (''createdAt'', DateV (parseDate eng (Str (toISOString eng 10)))),
              (''updatedAt'', DateV (parseDate eng (Str (toISOString eng 20)))),
              (''subtasks'', Arr [child_copy eng (Str (toISOString eng 20))] [])],
         child_copy eng (DateV (parseDate eng (Str (toISOString eng 20))))],
      tasks = [(Str ''task_p'', 2), (Str ''task_c'', 3)]\<rparr>"

lemma ser_child:
  "ser dtext (heap state_family) stk
     (example_obj ''task_c'' ''child'' ''medium'' 20 20 (Str ''task_p'') []) =
   Inr (Some (JObj [(''id'', JStr ''task_c''), (''title'', JStr ''child''), (''description'', JStr ''text''),
           (''status'', JStr ''pending''), (''priority'', JStr ''medium''),
           (''category'', JStr ''development''),
           (''createdAt'', JStr (dtext 20)),
           (''updatedAt'', JStr (dtext 20)),
           (''parentTaskId'', JStr ''task_p'')]))"
  by (simp add: example_obj_def ser.simps)

lemma export_family: "exportTasks eng state_family = Inr (family_doc eng)"
proof -
  have h: "heap state_family ! Suc 0 = example_obj ''task_c'' ''child'' ''medium'' 20 20 (Str ''task_p'') []"
    "heap state_family ! 0 = example_obj ''task_p'' ''parent'' ''medium'' 10 20 Undefined
                [(''subtasks'', Arr [Ref 1] [])]"
    "length (heap state_family) = 2"
    by (simp_all add: state_family_def)
  have c: "ser (toISOString eng) (heap state_family) stk (Ref (Suc 0)) = Inr (Some (child_doc eng))"
    if "Suc 0 \<notin> set stk" for stk
    using that by (subst ser.simps) (simp add: h ser_child child_doc_def)
  have p: "ser (toISOString eng) (heap state_family) [] (Ref 0) =
      Inr (Some (JObj [(''id'', JStr ''task_p''), (''title'', JStr ''parent''),
                 (''description'', JStr ''text''), (''status'', JStr ''pending''),
                 (''priority'', JStr ''medium''), (''category'', JStr ''development''),
                 (''createdAt'', JStr (toISOString eng 10)),
                 (''updatedAt'', JStr (toISOString eng 20)),
                 (''subtasks'', JArr [child_doc eng])]))"
    by (subst ser.simps) (simp add: h example_obj_def ser.simps(1-8) c)
  have t: "tasks state_family = [(Str ''task_p'', 0), (Str ''task_c'', Suc 0)]"
    by (simp add: state_family_def)
  show ?thesis
    by (simp add: exportTasks_def t p c family_doc_def)
qed

lemma import_family:
  "importTasks eng (Some (family_doc eng)) state_family = (2, family_reimported eng)"
proof -
  have l: "length (heap state_family) = 2" by (simp add: state_family_def)
  have t: "tasks state_family = [(Str ''task_p'', 0), (Str ''task_c'', Suc 0)]"
    by (simp add: state_family_def)
  show ?thesis
    by (simp add: importTasks_def family_doc_def child_doc_def import_task_def and_then_def
        new_Date_Str lookup_simps l t family_reimported_def child_copy_def)
qed

text \<open>
  C1. For the registry that holds a parent and its subtask, \<^verbatim>\<open>exportTasks\<close> writes the
  subtask twice, once nested in the \<open>subtasks\<close> of the parent and once as an entry of its
  own, and \<^verbatim>\<open>importTasks\<close> of that document converts the date fields of the two entries
  only. Before the round trip the subtask nested in the parent has a \<^verbatim>\<open>Date\<close> as
  \<open>createdAt\<close>; after it the task nested in the parent has a string there, the text of
  \<^verbatim>\<open>toISOString\<close>, for every engine.
\<close>

theorem importTasks_exportTasks_nested_dates:
  "exportTasks eng state_family = Inr (family_doc eng) \<and>
   importTasks eng (Some (family_doc eng)) state_family = (2, family_reimported eng) \<and>
   field (heap state_family) 0 ''subtasks'' = Arr [Ref 1] [] \<and>
   field (heap state_family) 1 ''createdAt'' = DateV (Some 20) \<and>
   map_of (tasks (family_reimported eng)) (Str ''task_p'') = Some 2 \<and>
   field (heap (family_reimported eng)) 2 ''createdAt'' =
     DateV (parseDate eng (Str (toISOString eng 10))) \<and>
   field (heap (family_reimported eng)) 2 ''subtasks'' =
     Arr [child_copy eng (Str (toISOString eng 20))] [] \<and>
   lookup (props_of (child_copy eng (Str (toISOString eng 20)))) ''createdAt'' =
     Str (toISOString eng 20)"
proof -
  have "length (heap state_family) = 2"
    by (simp add: state_family_def)
  then have "field (heap (family_reimported eng)) 2 ''createdAt'' =
      DateV (parseDate eng (Str (toISOString eng 10)))"
    and "field (heap (family_reimported eng)) 2 ''subtasks'' =
      Arr [child_copy eng (Str (toISOString eng 20))] []"
    by (simp_all add: family_reimported_def field_def deref_def nth_append lookup_simps)
  moreover have "field (heap state_family) 1 ''createdAt'' = DateV (Some 20)"
    by (simp add: state_family_def field_def deref_def lookup_example_obj)
  moreover have "map_of (tasks (family_reimported eng)) (Str ''task_p'') = Some 2"
    by (simp add: family_reimported_def)
  moreover have "lookup (props_of (child_copy eng (Str (toISOString eng 20)))) ''createdAt'' =
      Str (toISOString eng 20)"
    by (simp add: child_copy_def lookup_simps)
  ultimately show ?thesis
    by (simp add: export_family import_family fields_family)
qed

text \<open>
  C8, as the specification states it: a payload that is not of the expected shape is
  discarded, zero is returned and the registry is unchanged. An array whose second element
  is \<^verbatim>\<open>null\<close> makes \<^verbatim>\<open>importTasks\<close> return 0 after it has stored the first element; an array
  that holds an object without any field of a task makes it return 1 and store the object
  under the key \<^verbatim>\<open>undefined\<close>; \<^verbatim>\<open>importLearnings\<close> does the same with its \<open>learnings\<close>.
\<close>

theorem import_malformed_counterexample:
  "importTasks sample_engine (Some (JArr [JObj [(''id'', JStr ''task_x'')], JNull])) empty_tasks =
     (0, \<lparr>heap = [Obj [(''id'', Str ''task_x''), (''createdAt'', DateV None),
                        (''updatedAt'', DateV None)]],
           tasks = [(Str ''task_x'', 0)]\<rparr>) \<and>
   importTasks sample_engine (Some (JArr [JObj []])) empty_tasks =
     (1, \<lparr>heap = [Obj [(''createdAt'', DateV None), (''updatedAt'', DateV None)]],
           tasks = [(Undefined, 0)]\<rparr>) \<and>
   importLearnings sample_engine
       (Some (JObj [(''learnings'', JArr [JObj [(''id'', JStr ''learn_x'')], JNull])])) 0
       initial_learning_state =
     (0, initial_learning_state
           \<lparr>learnings := [(Str ''learn_x'',
                            Obj [(''id'', Str ''learn_x''), (''timestamp'', DateV None)])]\<rparr>)"
  by (simp add: importTasks_def importLearnings_def import_task_def import_entry_def
      and_then_def new_Date_Undefined lookup_simps empty_tasks_def initial_learning_state_def
      map_set_def)

text \<open>
  C8, amended. A payload that is not valid JSON, or whose document is not an array, makes
  \<^verbatim>\<open>importTasks\<close> return 0 and leave its state as it was. A payload that is not valid JSON,
  or whose document is not an object with an array as \<open>learnings\<close>, makes
  \<^verbatim>\<open>importLearnings\<close> return 0 and leave the learning registry as it was; it leaves the
  metrics as they were too, unless the document has no truthy \<open>learnings\<close> and a truthy
  \<open>metrics\<close>: then the own properties of that value are assigned to the metrics, as they
  are, and \<open>lastActiveAt\<close> is set to the time of the call. Neither function raises.
\<close>

theorem import_malformed_discarded:
  "(\<not> is_task_array payload \<longrightarrow> importTasks eng payload s = (0, s)) \<and>
   (\<not> is_learning_envelope payload \<longrightarrow>
      fst (importLearnings eng payload now ls) = 0 \<and>
      learnings (snd (importLearnings eng payload now ls)) = learnings ls \<and>
      (assigns_metrics payload \<longrightarrow>
         snd (importLearnings eng payload now ls) =
           ls\<lparr>metrics := assign_metrics eng (metrics_of payload) now (metrics ls)\<rparr>) \<and>
      (\<not> assigns_metrics payload \<longrightarrow> snd (importLearnings eng payload now ls) = ls))"
proof -
  have "fst (importLearnings eng payload now ls) = 0 \<and>
      learnings (snd (importLearnings eng payload now ls)) = learnings ls \<and>
      (assigns_metrics payload \<longrightarrow>
         snd (importLearnings eng payload now ls) =
           ls\<lparr>metrics := assign_metrics eng (metrics_of payload) now (metrics ls)\<rparr>) \<and>
      (\<not> assigns_metrics payload \<longrightarrow> snd (importLearnings eng payload now ls) = ls)"
    if "\<not> is_learning_envelope payload"
  proof (cases payload)
    case None
    then show ?thesis by (simp add: importLearnings_def assigns_metrics_def)
  next
    case (Some doc)
    with that importLearnings_document [of doc eng now ls] show ?thesis by simp
  qed
  with importTasks_not_array [of payload eng s] show ?thesis by blast
qed

text \<open>
  A text that is not JSON and a document that is not an array leave the registry of the
  example as it was; a document whose \<open>learnings\<close> is a number leaves the learning state as
  it was; a document that has a \<open>metrics\<close> member only overwrites the metrics.
\<close>

theorem import_malformed_discarded_witness:
  "\<not> is_task_array None \<and>
   importTasks sample_engine None state_parent = (0, state_parent) \<and>
   \<not> is_task_array (Some (JObj [(''tasks'', JArr [])])) \<and>
   importTasks sample_engine (Some (JObj [(''tasks'', JArr [])])) state_parent = (0, state_parent) \<and>
   \<not> is_learning_envelope (Some (JObj [(''learnings'', JNum 5)])) \<and>
   \<not> assigns_metrics (Some (JObj [(''learnings'', JNum 5)])) \<and>
   importLearnings sample_engine (Some (JObj [(''learnings'', JNum 5)])) 0 one_learning =
     (0, one_learning) \<and>
   \<not> is_learning_envelope (Some (JObj [(''metrics'', JObj [(''totalTasks'', JNull)])])) \<and>
   assigns_metrics (Some (JObj [(''metrics'', JObj [(''totalTasks'', JNull)])])) \<and>
   fst (importLearnings sample_engine
          (Some (JObj [(''metrics'', JObj [(''totalTasks'', JNull)])])) 7 one_learning) = 0 \<and>
   learnings (snd (importLearnings sample_engine
          (Some (JObj [(''metrics'', JObj [(''totalTasks'', JNull)])])) 7 one_learning)) =
     learnings one_learning \<and>
   lookup (metrics (snd (importLearnings sample_engine
          (Some (JObj [(''metrics'', JObj [(''totalTasks'', JNull)])])) 7 one_learning)))
     ''totalTasks'' = Null"
proof -
  let ?five = "Some (JObj [(''learnings'', JNum 5)])"
  let ?over = "Some (JObj [(''metrics'', JObj [(''totalTasks'', JNull)])])"
  have 1: "\<not> is_task_array None" "\<not> is_task_array (Some (JObj [(''tasks'', JArr [])]))"
    by (simp_all add: is_task_array_def)
  have 2: "\<not> is_learning_envelope ?five" "\<not> is_learning_envelope ?over"
    by (simp_all add: is_learning_envelope_def lookup_simps)
  have 3: "\<not> assigns_metrics ?five" "assigns_metrics ?over"
    by (simp_all add: assigns_metrics_def metrics_of_def lookup_simps)
  have 4: "metrics_of ?over = Obj [(''totalTasks'', Null)]"
    by (simp add: metrics_of_def lookup_simps)
  have 5: "lookup (assign_metrics sample_engine (Obj [(''totalTasks'', Null)]) 7 m) ''totalTasks'' = Null"
    for m
    by (simp add: assign_metrics_def assign_property_def lookup_update)
  from import_malformed_discarded [of None sample_engine state_parent]
    import_malformed_discarded [of "Some (JObj [(''tasks'', JArr [])])" sample_engine state_parent]
    1
  have a: "importTasks sample_engine None state_parent = (0, state_parent)"
    "importTasks sample_engine (Some (JObj [(''tasks'', JArr [])])) state_parent = (0, state_parent)"
    by simp_all
  from import_malformed_discarded [of ?five sample_engine _ 0 one_learning] 2 3
  have b: "importLearnings sample_engine ?five 0 one_learning = (0, one_learning)"
    by (simp add: prod_eq_iff)
  from import_malformed_discarded [of ?over sample_engine _ 7 one_learning] 2 3
  have c: "fst (importLearnings sample_engine ?over 7 one_learning) = 0"
    "learnings (snd (importLearnings sample_engine ?over 7 one_learning)) = learnings one_learning"
    "lookup (metrics (snd (importLearnings sample_engine ?over 7 one_learning))) ''totalTasks'' = Null"
    by (simp_all add: 4 5)
  from 1 2 3 a b c show ?thesis by simp
qed

subsection \<open>Waiting for a run\<close>






text \<open>Three environments, used as examples; none of them has tool calls.\<close>

definition poll_of :: "run_status \<Rightarrow> string option \<Rightarrow> poll" where
  "poll_of st msg =
     \<lparr>retrieve = Inr \<lparr>run_status = st, last_error = msg, required_action = None\<rparr>,
      submit = (\<lambda>outs. Inr ()), elapsed = 0\<rparr>"

definition env_cancelled :: "nat \<Rightarrow> poll" where
  "env_cancelled i = poll_of Cancelled (Some ''server overloaded'')"







subsection \<open>Updating the metrics\<close>

lemma to_number_Num [simp]: "to_number eng (Num n) = Inr n"
  by (simp add: to_number_def and_then_def)

lemma readable_Num [simp]: "readable eng (Num n)"
  by (simp add: readable_def)

lemma readableE:
  assumes "readable eng v"
  obtains x where "to_number eng v = Inr x"
  using assms by (cases "to_number eng v") (auto simp: readable_def)

text \<open>
  The update of the metrics in \<^verbatim>\<open>recordLearning\<close>, when the three counters read as the
  numbers \<open>t\<close>, \<open>c\<close> and \<open>f\<close>: it does not raise, and it counts.
\<close>

lemma update_metrics_for_readable:
  assumes "to_number eng (lookup m ''totalTasks'') = Inr t"
    and "to_number eng (lookup m ''completedTasks'') = Inr c"
    and "to_number eng (lookup m ''failedTasks'') = Inr f"
  shows "fst (update_metrics_for eng oc now m) = None"
    and "lookup (snd (update_metrics_for eng oc now m)) ''totalTasks'' = Num (js_add t (Fin 1))"
    and "lookup (snd (update_metrics_for eng oc now m)) ''completedTasks'' =
           (if oc = Success then Num (js_add c (Fin 1)) else lookup m ''completedTasks'')"
    and "lookup (snd (update_metrics_for eng oc now m)) ''failedTasks'' =
           (if oc = Failure then Num (js_add f (Fin 1)) else lookup m ''failedTasks'')"
    and "lookup (snd (update_metrics_for eng oc now m)) ''successRate'' =
           Num (js_div (if oc = Success then js_add c (Fin 1) else c) (js_add t (Fin 1)))"
  using assms
  by (cases oc; simp add: update_metrics_for_def increment_def set_successRate_def and_then_def
      lookup_update)+

subsection \<open>Processing a message\<close>

lemma fields_of_failure_entry:
  "get_prop (new_entry (failure_params eng msg m) i t) ''outcome'' = Inr (Str ''failure'')"
  "get_prop (new_entry (failure_params eng msg m) i t) ''feedback'' = Inr (Str m)"
  by (simp_all add: new_entry_def failure_params_def lookup_simps opt_str_def)

lemma learning_with_session [simp]: "learning (with_session g st) = learning st"
  by (simp add: with_session_def)

text \<open>What \<^verbatim>\<open>processMessage\<close> does when the statements before the \<^verbatim>\<open>try\<close> block raise.\<close>

lemma begin_message_Inl:
  assumes "begin_message env st = (Inl err, st0)"
  shows "learning st0 = learning st \<and> registry st0 = registry st"
  using assms
  by (auto simp: begin_message_def getSession_def Let_def split: option.splits sum.splits)

text \<open>Examples: an agent with an active session, one without, and three environments.\<close>

definition no_tools :: "agent_state handler" where
  "no_tools calls st = (Inr [], st)"

definition agent_ready :: agent_state where
  "agent_ready =
     \<lparr>activeSession = Some \<lparr>threadId = ''thread_1'', runId = None, status = Active,
                            lastActivityAt = 0, messages = [], session_tasks = []\<rparr>,
      learning = initial_learning_state,
      registry = empty_tasks\<rparr>"

definition agent_fresh :: agent_state where
  "agent_fresh = agent_ready\<lparr>activeSession := None\<rparr>"

definition user_msg :: chat_message where
  "user_msg = \<lparr>msg_id = ''msg_1'', msg_role = ''user'', content = ''hello'', msg_time = 1\<rparr>"

definition env_run_cancelled :: agent_env where
  "env_run_cancelled =
     \<lparr>createThread_r = Inr ''thread_1'', addMessage_r = Inr user_msg,
      runAssistant_r = (\<lambda>instructions. Inr ''run_1''), polls = env_cancelled,
      getThreadMessages_r = Inr [], newLearningId = ''learn_e_1'',
      time_session = 0, time_start = 1, time_added = 2, time_wait = 3, time_end = 4,
      engine_text = (\<lambda>err. ''TypeError'')\<rparr>"

definition env_offline :: agent_env where
  "env_offline = env_run_cancelled\<lparr>addMessage_r := Inl (Error ''Connection error.'')\<rparr>"

definition env_no_key :: agent_env where
  "env_no_key = env_run_cancelled\<lparr>createThread_r := Inl (Error ''OPENAI_API_KEY is not set'')\<rparr>"

definition agent_processing :: agent_state where
  "agent_processing =
     agent_ready\<lparr>activeSession :=
       Some \<lparr>threadId = ''thread_1'', runId = None, status = Processing,
             lastActivityAt = 2, messages = [user_msg], session_tasks = []\<rparr>\<rparr>"

lemma begin_ready: "begin_message env_run_cancelled agent_ready = (Inr (), agent_processing)"
  by (simp add: begin_message_def getSession_def agent_ready_def env_run_cancelled_def
      with_session_def agent_processing_def)

lemma find_none: "findSimilarLearnings eng q 3 initial_learning_state = Inr []"
  by (simp add: findSimilarLearnings_def initial_learning_state_def sort_by_def slice0_def)

lemma wait_cancelled:
  "waitForRunCompletion (Inr ()) env_cancelled h 3 w = (Inl (Error ''Run was cancelled''), w)"
  by (simp add: waitForRunCompletion_def) 
     (subst waitLoop.simps, simp add: env_cancelled_def poll_of_def timeoutMs_def)

lemma body_cancelled:
  "process_body eng env_run_cancelled no_tools ''hello'' agent_processing =
     (Inl (Error ''Run was cancelled''),
      with_session (\<lambda>se. se\<lparr>runId := Some ''run_1''\<rparr>) agent_processing)"
  by (simp add: process_body_def agent_processing_def agent_ready_def find_none and_then_def
      additional_instructions_def env_run_cancelled_def wait_cancelled)

text \<open>
  C2, as the specification states it: any failure while a message is processed is recorded
  and returned as an error text. Appending the message to the thread happens before the
  \<^verbatim>\<open>try\<close> block: when that call raises, \<^verbatim>\<open>processMessage\<close> is rejected with its error and
  no learning is recorded.
\<close>

theorem processMessage_before_try_counterexample:
  "fst (processMessage sample_engine env_offline no_tools ''hello'' agent_ready) =
     Inl (Error ''Connection error.'') \<and>
   learning (snd (processMessage sample_engine env_offline no_tools ''hello'' agent_ready)) =
     learning agent_ready"
  by (simp add: processMessage_def begin_message_def getSession_def agent_ready_def
      env_offline_def env_run_cancelled_def)

text \<open>
  C2, amended. When there is no session and creating the thread raises, or when appending
  the user message to the thread raises, \<^verbatim>\<open>processMessage\<close> is rejected with that error and
  records nothing: the learning state is as it was. Once the session exists and the message
  has been appended, a result of the rest of the processing is returned as it is; and if
  the rest of the processing fails (looking up similar learnings, building the
  instructions, starting the run, waiting for it with its tool calls, fetching the reply or
  tracking it), \<^verbatim>\<open>processMessage\<close> stores a learning entry with the outcome \<open>failure\<close> and
  the message of the error as feedback; then, provided the three counters of the metrics
  can be read as numbers, as \<^verbatim>\<open>AgentMetrics\<close> types them, it counts one more failed task
  and returns the error prefix followed by the message of the error.
\<close>

theorem processMessage_failure_recorded:
  "(\<forall>err. activeSession st = None \<and> createThread_r env = Inl err \<longrightarrow>
      processMessage eng env handleToolCalls userMessage st = (Inl err, st)) \<and>
   (\<forall>err. (activeSession st \<noteq> None \<or> (\<exists>tid. createThread_r env = Inr tid)) \<and>
          addMessage_r env = Inl err \<longrightarrow>
      fst (processMessage eng env handleToolCalls userMessage st) = Inl err \<and>
      learning (snd (processMessage eng env handleToolCalls userMessage st)) = learning st) \<and>
   (\<forall>st0. begin_message env st = (Inr (), st0) \<longrightarrow>
      (\<forall>out st1. process_body eng env handleToolCalls userMessage st0 = (Inr out, st1) \<longrightarrow>
         processMessage eng env handleToolCalls userMessage st = (Inr out, st1)) \<and>
      (\<forall>err st1. process_body eng env handleToolCalls userMessage st0 = (Inl err, st1) \<longrightarrow>
         map_of (learnings (learning (snd (processMessage eng env handleToolCalls userMessage st))))
             (Str (newLearningId env)) =
           Some (new_entry (failure_params eng userMessage (error_message env err))
                   (newLearningId env) (time_end env)) \<and>
         get_prop (new_entry (failure_params eng userMessage (error_message env err))
                     (newLearningId env) (time_end env)) ''outcome'' = Inr (Str ''failure'') \<and>
         get_prop (new_entry (failure_params eng userMessage (error_message env err))
                     (newLearningId env) (time_end env)) ''feedback'' =
           Inr (Str (error_message env err)) \<and>
         (counters_readable eng (metrics (learning st1)) \<longrightarrow>
            fst (processMessage eng env handleToolCalls userMessage st) =
              Inr (error_prefix @ error_message env err) \<and>
            (\<forall>f. to_number eng (lookup (metrics (learning st1)) ''failedTasks'') = Inr f \<longrightarrow>
               lookup (metrics (learning (snd (processMessage eng env handleToolCalls userMessage st))))
                   ''failedTasks'' = Num (js_add f (Fin 1))))))"
proof -
  let ?pm = "processMessage eng env handleToolCalls userMessage st"
  have 1: "?pm = (Inl err, st)" if "activeSession st = None \<and> createThread_r env = Inl err" for err
    using that by (simp add: processMessage_def begin_message_def getSession_def)
  have 2: "fst ?pm = Inl err \<and> learning (snd ?pm) = learning st"
    if "(activeSession st \<noteq> None \<or> (\<exists>tid. createThread_r env = Inr tid)) \<and>
        addMessage_r env = Inl err" for err
    using that
    by (auto simp: processMessage_def begin_message_def getSession_def Let_def
        split: option.splits)
  have 3: "?pm = (Inr out, st1)"
    if "begin_message env st = (Inr (), st0)"
      "process_body eng env handleToolCalls userMessage st0 = (Inr out, st1)" for st0 out st1
    using that by (simp add: processMessage_def)
  have 4: "map_of (learnings (learning (snd ?pm))) (Str (newLearningId env)) =
             Some (new_entry (failure_params eng userMessage (error_message env err))
                     (newLearningId env) (time_end env)) \<and>
           (counters_readable eng (metrics (learning st1)) \<longrightarrow>
              fst ?pm = Inr (error_prefix @ error_message env err) \<and>
              (\<forall>f. to_number eng (lookup (metrics (learning st1)) ''failedTasks'') = Inr f \<longrightarrow>
                 lookup (metrics (learning (snd ?pm))) ''failedTasks'' = Num (js_add f (Fin 1))))"
    if begun: "begin_message env st = (Inr (), st0)"
      and body: "process_body eng env handleToolCalls userMessage st0 = (Inl err, st1)"
    for st0 err st1
  proof -
    let ?p = "failure_params eng userMessage (error_message env err)"
    let ?rec = "recordLearning eng ?p (newLearningId env) (time_end env) (learning st1)"
    from begun body have pm: "?pm =
        (case fst ?rec of Inl raised \<Rightarrow> Inl raised
         | Inr entry \<Rightarrow> Inr (error_prefix @ error_message env err),
         (with_session (\<lambda>se. se\<lparr>status := Errored\<rparr>) st1)\<lparr>learning := snd ?rec\<rparr>)"
      by (simp add: processMessage_def catch_error_def Let_def)
    have stored: "map_of (learnings (learning (snd ?pm))) (Str (newLearningId env)) =
        Some (new_entry ?p (newLearningId env) (time_end env))"
      by (simp add: pm learnings_recordLearning update_conv')
    have counted: "fst ?pm = Inr (error_prefix @ error_message env err) \<and>
        (\<forall>f. to_number eng (lookup (metrics (learning st1)) ''failedTasks'') = Inr f \<longrightarrow>
           lookup (metrics (learning (snd ?pm))) ''failedTasks'' = Num (js_add f (Fin 1)))"
      if "counters_readable eng (metrics (learning st1))"
    proof -
      from that obtain t c f where r: "to_number eng (lookup (metrics (learning st1)) ''totalTasks'') = Inr t"
        "to_number eng (lookup (metrics (learning st1)) ''completedTasks'') = Inr c"
        "to_number eng (lookup (metrics (learning st1)) ''failedTasks'') = Inr f"
        unfolding counters_readable_def by (auto elim!: readableE)
      have oc: "outcome ?p = Failure" by (simp add: failure_params_def)
      from update_metrics_for_readable(1) [OF r, of Failure "time_end env"]
      have "fst ?rec = Inr (new_entry ?p (newLearningId env) (time_end env))"
        by (simp add: recordLearning_def Let_def oc)
      moreover from update_metrics_for_readable(4) [OF r, of Failure "time_end env"]
      have "lookup (metrics (snd ?rec)) ''failedTasks'' = Num (js_add f (Fin 1))"
        by (simp add: metrics_recordLearning oc)
      ultimately show ?thesis
        using r(3) by (simp add: pm)
    qed
    from stored counted show ?thesis by blast
  qed
  from 1 2 3 4 fields_of_failure_entry [of eng userMessage] show ?thesis
    by (intro conjI allI impI) blast+
qed

text \<open>
  Without an API key no thread can be created for an agent that has no session, and the
  call is rejected; with a session, a connection error of \<^verbatim>\<open>addMessage\<close> rejects it; in both
  cases the learning registry stays empty. A run that is cancelled is recorded as a failure.
\<close>

theorem processMessage_failure_recorded_witness:
  "processMessage sample_engine env_no_key no_tools ''hello'' agent_fresh =
     (Inl (Error ''OPENAI_API_KEY is not set''), agent_fresh) \<and>
   fst (processMessage sample_engine env_offline no_tools ''hello'' agent_ready) =
     Inl (Error ''Connection error.'') \<and>
   learning (snd (processMessage sample_engine env_offline no_tools ''hello'' agent_ready)) =
     initial_learning_state \<and>
   begin_message env_run_cancelled agent_ready = (Inr (), agent_processing) \<and>
   fst (process_body sample_engine env_run_cancelled no_tools ''hello'' agent_processing) =
     Inl (Error ''Run was cancelled'') \<and>
   fst (processMessage sample_engine env_run_cancelled no_tools ''hello'' agent_ready) =
     Inr (error_prefix @ ''Run was cancelled'') \<and>
   map_of (learnings (learning (snd (processMessage sample_engine env_run_cancelled no_tools
       ''hello'' agent_ready)))) (Str ''learn_e_1'') =
     Some (new_entry (failure_params sample_engine ''hello'' ''Run was cancelled'') ''learn_e_1'' 4) \<and>
   get_prop (new_entry (failure_params sample_engine ''hello'' ''Run was cancelled'') ''learn_e_1'' 4)
       ''outcome'' = Inr (Str ''failure'') \<and>
   lookup (metrics (learning (snd (processMessage sample_engine env_run_cancelled no_tools
       ''hello'' agent_ready)))) ''failedTasks'' = Num (Fin 1)"
proof -
  let ?st1 = "with_session (\<lambda>se. se\<lparr>runId := Some ''run_1''\<rparr>) agent_processing"
  have m: "error_message env_run_cancelled (Error ''Run was cancelled'') = ''Run was cancelled''"
    "newLearningId env_run_cancelled = ''learn_e_1''" "time_end env_run_cancelled = 4"
    by (simp_all add: error_message_def env_run_cancelled_def)
  have l1: "metrics (learning ?st1) = initial_metrics"
    by (simp add: agent_processing_def agent_ready_def initial_learning_state_def)
  have cr: "counters_readable sample_engine (metrics (learning ?st1))"
    "to_number sample_engine (lookup (metrics (learning ?st1)) ''failedTasks'') = Inr (Fin 0)"
    unfolding l1 by (simp_all add: counters_readable_def initial_metrics_def lookup_simps)
  have k: "activeSession agent_fresh = None"
    "createThread_r env_no_key = Inl (Error ''OPENAI_API_KEY is not set'')"
    "activeSession agent_ready \<noteq> None"
    "addMessage_r env_offline = Inl (Error ''Connection error.'')"
    "learning agent_ready = initial_learning_state"
    by (simp_all add: agent_fresh_def agent_ready_def env_no_key_def env_offline_def
        env_run_cancelled_def)
  note gen = processMessage_failure_recorded
  from gen [of agent_fresh env_no_key sample_engine no_tools "''hello''"] k
  have a: "processMessage sample_engine env_no_key no_tools ''hello'' agent_fresh =
      (Inl (Error ''OPENAI_API_KEY is not set''), agent_fresh)"
    by blast
  from gen [of agent_ready env_offline sample_engine no_tools "''hello''"] k
  have b: "fst (processMessage sample_engine env_offline no_tools ''hello'' agent_ready) =
      Inl (Error ''Connection error.'') \<and>
    learning (snd (processMessage sample_engine env_offline no_tools ''hello'' agent_ready)) =
      initial_learning_state"
    by metis
  from gen [of agent_ready env_run_cancelled sample_engine no_tools "''hello''"]
    begin_ready body_cancelled [of sample_engine] cr
  have c: "fst (processMessage sample_engine env_run_cancelled no_tools ''hello'' agent_ready) =
      Inr (error_prefix @ ''Run was cancelled'') \<and>
    map_of (learnings (learning (snd (processMessage sample_engine env_run_cancelled no_tools
        ''hello'' agent_ready)))) (Str ''learn_e_1'') =
      Some (new_entry (failure_params sample_engine ''hello'' ''Run was cancelled'') ''learn_e_1'' 4) \<and>
    lookup (metrics (learning (snd (processMessage sample_engine env_run_cancelled no_tools
        ''hello'' agent_ready)))) ''failedTasks'' = Num (Fin 1)"
    by (simp add: m)
  from a b c begin_ready body_cancelled [of sample_engine] fields_of_failure_entry(1)
  show ?thesis by simp
qed

subsection \<open>Metrics\<close>

lemma js_div_zero_not_finite: "\<not> is_finite (js_div x (Fin 0))"
  by (cases x) auto

lemma holds_countE:
  assumes "holds_count m k"
  obtains x where "lookup m k = Num (Fin x)" "is_count (Fin x)"
proof -
  from assms obtain n where n: "lookup m k = Num n" "is_count n"
    by (cases "lookup m k") (auto simp: holds_count_def)
  then obtain x where "n = Fin x" by (cases n) auto
  with n that show ?thesis by simp
qed

text \<open>
  C6. Every call of \<^verbatim>\<open>recordLearning\<close> made while the three counters are counts returns
  the new entry and adds one to \<open>totalTasks\<close>; a success adds one to \<open>completedTasks\<close> and
  leaves a success rate above zero; a failure adds one to \<open>failedTasks\<close> and leaves
  \<open>completedTasks\<close> as it was. (The counters are counts in every state that the initial
  metrics reach through \<^verbatim>\<open>recordLearning\<close>; \<^verbatim>\<open>updateMetrics\<close> and \<^verbatim>\<open>importLearnings\<close> can
  store any value.)
\<close>

theorem recordLearning_counts:
  assumes "holds_count (metrics s) ''totalTasks''"
    and "holds_count (metrics s) ''completedTasks''"
    and "holds_count (metrics s) ''failedTasks''"
  shows "\<exists>t c f. lookup (metrics s) ''totalTasks'' = Num (Fin t) \<and>
           lookup (metrics s) ''completedTasks'' = Num (Fin c) \<and>
           lookup (metrics s) ''failedTasks'' = Num (Fin f) \<and>
           fst (recordLearning eng p newId now s) = Inr (new_entry p newId now) \<and>
           lookup (metrics (snd (recordLearning eng p newId now s))) ''totalTasks'' =
             Num (Fin (t + 1)) \<and>
           (outcome p = Success \<longrightarrow>
              lookup (metrics (snd (recordLearning eng p newId now s))) ''completedTasks'' =
                Num (Fin (c + 1)) \<and>
              (\<exists>r. lookup (metrics (snd (recordLearning eng p newId now s))) ''successRate'' = Num r \<and>
                   js_gt r (Fin 0))) \<and>
           (outcome p = Failure \<longrightarrow>
              lookup (metrics (snd (recordLearning eng p newId now s))) ''failedTasks'' =
                Num (Fin (f + 1)) \<and>
              lookup (metrics (snd (recordLearning eng p newId now s))) ''completedTasks'' =
                Num (Fin c))"
proof -
  from assms obtain t c f where t: "lookup (metrics s) ''totalTasks'' = Num (Fin t)"
    and c: "lookup (metrics s) ''completedTasks'' = Num (Fin c)"
    and f: "lookup (metrics s) ''failedTasks'' = Num (Fin f)"
    and nonneg: "0 \<le> t" "0 \<le> c"
    by (auto elim!: holds_countE)
  have r: "to_number eng (lookup (metrics s) ''totalTasks'') = Inr (Fin t)"
    "to_number eng (lookup (metrics s) ''completedTasks'') = Inr (Fin c)"
    "to_number eng (lookup (metrics s) ''failedTasks'') = Inr (Fin f)"
    by (simp_all add: t c f)
  note upd = update_metrics_for_readable [OF r, of "outcome p" now]
  from nonneg have pos: "0 < (c + 1) / (t + 1)" by simp
  have 1: "fst (recordLearning eng p newId now s) = Inr (new_entry p newId now)"
    using upd(1) by (simp add: recordLearning_def Let_def)
  have 2: "lookup (metrics (snd (recordLearning eng p newId now s))) ''totalTasks'' =
      Num (Fin (t + 1))"
    using upd(2) by (simp add: metrics_recordLearning)
  have 3: "lookup (metrics (snd (recordLearning eng p newId now s))) ''completedTasks'' =
        Num (Fin (c + 1)) \<and>
      (\<exists>r. lookup (metrics (snd (recordLearning eng p newId now s))) ''successRate'' = Num r \<and>
           js_gt r (Fin 0))"
    if "outcome p = Success"
    using upd(3,5) that nonneg pos by (simp add: metrics_recordLearning)
  have 4: "lookup (metrics (snd (recordLearning eng p newId now s))) ''failedTasks'' =
        Num (Fin (f + 1)) \<and>
      lookup (metrics (snd (recordLearning eng p newId now s))) ''completedTasks'' = Num (Fin c)"
    if "outcome p = Failure"
    using upd(3,4) that c by (simp add: metrics_recordLearning)
  from t c f 1 2 3 4 show ?thesis by blast
qed

lemma holds_count_initial:
  "holds_count (metrics initial_learning_state) ''totalTasks''"
  "holds_count (metrics initial_learning_state) ''completedTasks''"
  "holds_count (metrics initial_learning_state) ''failedTasks''"
  by (simp_all add: holds_count_def initial_learning_state_def initial_metrics_def lookup_simps)

lemma lookup_initial:
  "lookup (metrics initial_learning_state) ''totalTasks'' = Num (Fin 0)"
  "lookup (metrics initial_learning_state) ''completedTasks'' = Num (Fin 0)"
  "lookup (metrics initial_learning_state) ''failedTasks'' = Num (Fin 0)"
  by (simp_all add: initial_learning_state_def initial_metrics_def lookup_simps)

theorem recordLearning_counts_witness:
  "lookup (metrics (snd (recordLearning sample_engine (example_params ''a'' Success) ''learn_1'' 5
      initial_learning_state))) ''totalTasks'' = Num (Fin 1) \<and>
   lookup (metrics (snd (recordLearning sample_engine (example_params ''a'' Success) ''learn_1'' 5
      initial_learning_state))) ''completedTasks'' = Num (Fin 1) \<and>
   lookup (metrics (snd (recordLearning sample_engine (example_params ''a'' Failure) ''learn_1'' 5
      initial_learning_state))) ''failedTasks'' = Num (Fin 1) \<and>
   lookup (metrics (snd (recordLearning sample_engine (example_params ''a'' Failure) ''learn_1'' 5
      initial_learning_state))) ''completedTasks'' = Num (Fin 0) \<and>
   fst (recordLearning sample_engine (example_params ''a'' Failure) ''learn_1'' 5
      initial_learning_state) = Inr (new_entry (example_params ''a'' Failure) ''learn_1'' 5)"
  using recordLearning_counts [OF holds_count_initial, of sample_engine
      "example_params ''a'' Success" "''learn_1''" 5]
    recordLearning_counts [OF holds_count_initial, of sample_engine
      "example_params ''a'' Failure" "''learn_1''" 5]
  by (simp add: lookup_initial example_params_def)

text \<open>
  C10. \<^verbatim>\<open>recordCompletionTime\<close> divides by \<open>completedTasks\<close> without a guard: called while
  that counter is zero it leaves an average that is not finite, whatever the duration and
  whatever number the previous average reads as. When the counter is a count, a finite
  average after the call requires that it was at least one.
\<close>

lemma count_nonzero_ge_one:
  assumes "is_count (Fin c)" and "c \<noteq> 0"
  shows "1 \<le> c"
proof -
  from assms have "0 \<le> c" and k: "c = of_int \<lfloor>c\<rfloor>" by simp_all
  with assms(2) have "0 < \<lfloor>c\<rfloor>"
    by (metis le_less of_int_0 zero_le_floor)
  then have "1 \<le> \<lfloor>c\<rfloor>" by simp
  then show "1 \<le> c" by (simp add: le_floor_iff)
qed

lemma recordCompletionTime_m_zero:
  assumes "lookup m ''completedTasks'' = Num (Fin 0)"
    and "to_number eng (lookup m ''averageCompletionTime'') = Inr a"
  shows "recordCompletionTime_m eng d m =
           Inr (AList.update ''averageCompletionTime''
                  (Num (js_div (js_add (js_mul a (js_sub (Fin 0) (Fin 1))) d) (Fin 0))) m)"
  using assms by (simp add: recordCompletionTime_m_def and_then_def Let_def)

theorem recordCompletionTime_zero_guard:
  "(lookup m ''completedTasks'' = Num (Fin 0) \<and> readable eng (lookup m ''averageCompletionTime'') \<longrightarrow>
      (\<exists>m' a. recordCompletionTime_m eng d m = Inr m' \<and>
               lookup m' ''averageCompletionTime'' = Num a \<and> \<not> is_finite a)) \<and>
   (holds_count m ''completedTasks'' \<longrightarrow>
      (\<forall>m' a. recordCompletionTime_m eng d m = Inr m' \<and>
              lookup m' ''averageCompletionTime'' = Num a \<and> is_finite a \<longrightarrow>
         (\<exists>c. lookup m ''completedTasks'' = Num c \<and> js_gt c (Fin 0) \<and> \<not> js_gt (Fin 1) c)))"
proof -
  have zero: "\<exists>m' a. recordCompletionTime_m eng d m = Inr m' \<and>
               lookup m' ''averageCompletionTime'' = Num a \<and> \<not> is_finite a"
    if z: "lookup m ''completedTasks'' = Num (Fin 0)"
      and r: "readable eng (lookup m ''averageCompletionTime'')"
  proof -
    from r obtain a where a: "to_number eng (lookup m ''averageCompletionTime'') = Inr a"
      by (rule readableE)
    show ?thesis
      unfolding recordCompletionTime_m_zero [OF z a]
      by (simp add: lookup_update js_div_zero_not_finite)
  qed
  have pos: "\<exists>c. lookup m ''completedTasks'' = Num c \<and> js_gt c (Fin 0) \<and> \<not> js_gt (Fin 1) c"
    if cnt: "holds_count m ''completedTasks''"
      and res: "recordCompletionTime_m eng d m = Inr m'"
      and avg: "lookup m' ''averageCompletionTime'' = Num a" and fin: "is_finite a"
    for m' a
  proof -
    from cnt obtain c where c: "lookup m ''completedTasks'' = Num (Fin c)" and ic: "is_count (Fin c)"
      by (rule holds_countE)
    have "c \<noteq> 0"
    proof
      assume "c = 0"
      with c have z: "lookup m ''completedTasks'' = Num (Fin 0)" by simp
      from res obtain b where b: "to_number eng (lookup m ''averageCompletionTime'') = Inr b"
        by (cases "to_number eng (lookup m ''averageCompletionTime'')")
          (simp_all add: recordCompletionTime_m_def and_then_def z)
      from res avg have "a = js_div (js_add (js_mul b (js_sub (Fin 0) (Fin 1))) d) (Fin 0)"
        unfolding recordCompletionTime_m_zero [OF z b] by (auto simp: lookup_update)
      with fin show False by (simp add: js_div_zero_not_finite)
    qed
    with ic have "1 \<le> c" by (rule count_nonzero_ge_one)
    with c show ?thesis by simp
  qed
  from zero pos show ?thesis by blast
qed

text \<open>
  At the initial metrics of the module (all counters zero) a call with a duration of 1500 ms
  leaves an infinite average; after one success has been counted the same call gives 1500.
\<close>

lemma metrics_after_success:
  "update_metrics_for sample_engine Success 7 initial_metrics =
     (None,
      [(''totalTasks'', Num (Fin 1)),
       (''completedTasks'', Num (Fin 1)),
       (''failedTasks'', Num (Fin 0)),
       (''averageCompletionTime'', Num (Fin 0)),
       (''successRate'', Num (Fin 1)),
       (''tokensUsed'', Num (Fin 0)),
       (''lastActiveAt'', DateV (Some 7))])"
  by (simp add: update_metrics_for_def increment_def set_successRate_def and_then_def
      initial_metrics_def lookup_simps)

theorem recordCompletionTime_zero_guard_witness:
  "lookup initial_metrics ''completedTasks'' = Num (Fin 0) \<and>
   (\<exists>m'. recordCompletionTime_m sample_engine (Fin 1500) initial_metrics = Inr m' \<and>
         lookup m' ''averageCompletionTime'' = Num PosInf) \<and>
   holds_count (snd (update_metrics_for sample_engine Success 7 initial_metrics)) ''completedTasks'' \<and>
   lookup (snd (update_metrics_for sample_engine Success 7 initial_metrics)) ''completedTasks'' =
     Num (Fin 1) \<and>
   (\<exists>m'. recordCompletionTime_m sample_engine (Fin 1500)
           (snd (update_metrics_for sample_engine Success 7 initial_metrics)) = Inr m' \<and>
         lookup m' ''averageCompletionTime'' = Num (Fin 1500))"
proof -
  let ?m0 = initial_metrics
  let ?m1 = "snd (update_metrics_for sample_engine Success 7 initial_metrics)"
  have z: "lookup ?m0 ''completedTasks'' = Num (Fin 0)"
    "to_number sample_engine (lookup ?m0 ''averageCompletionTime'') = Inr (Fin 0)"
    "readable sample_engine (lookup ?m0 ''averageCompletionTime'')"
    by (simp_all add: initial_metrics_def lookup_simps)
  have c1: "lookup ?m1 ''completedTasks'' = Num (Fin 1)" "holds_count ?m1 ''completedTasks''"
    by (simp_all add: metrics_after_success lookup_simps holds_count_def)
  have a0: "\<exists>m'. recordCompletionTime_m sample_engine (Fin 1500) ?m0 = Inr m' \<and>
      lookup m' ''averageCompletionTime'' = Num PosInf"
    unfolding recordCompletionTime_m_zero [OF z(1,2)]
    by (simp add: lookup_update js_sub_def)
  have a1: "\<exists>m'. recordCompletionTime_m sample_engine (Fin 1500) ?m1 = Inr m' \<and>
      lookup m' ''averageCompletionTime'' = Num (Fin 1500)"
    by (simp add: metrics_after_success recordCompletionTime_m_def and_then_def Let_def
        lookup_simps lookup_update js_sub_def)
  from recordCompletionTime_zero_guard [of ?m0 sample_engine "Fin 1500"]
    recordCompletionTime_zero_guard [of ?m1 sample_engine "Fin 1500"] z c1 a0 a1
  show ?thesis by simp
qed

end
